theory Spec2Isabelle
  imports Main "HOL-Library.AList" "HOL-Library.Sublist"
begin

section \<open>Python values used by bot.py\<close>

text \<open>
  A \<open>str\<close> is its sequence of code points. \<open>u ''abc''\<close> is the \<open>str\<close> of an ASCII
  literal. A \<open>dict\<close> is an association list in insertion order: \<open>d[k]\<close> is
  \<open>map_of d k\<close> (\<open>None\<close>: KeyError), \<open>d[k] = v\<close> is \<open>AList.update k v d\<close> (an
  existing key keeps its place, a new one goes last) and \<open>len(d)\<close> is \<open>length d\<close>. The
  keys of an event are the literals of the source and stay Isabelle strings; its values,
  and the keys of the catalog, are \<open>str\<close> values.
\<close>

type_synonym pystr = "nat list"

definition u :: "string \<Rightarrow> pystr" where
  "u s = map of_char s"

datatype exn = KeyError

type_synonym event = "(string \<times> pystr) list"
type_synonym catalog = "(pystr \<times> event) list"

text \<open>\<open>str(n)\<close> for a non-negative integer: its decimal digits.\<close>

fun str :: "nat \<Rightarrow> pystr" where
  "str n = (if n < 10 then [48 + n] else str (n div 10) @ [48 + n mod 10])"

declare str.simps [simp del]

section \<open>The deduplicator: the merge of \<open>auto_scrape_task\<close>\<close>

text \<open>
  \<open>existing_titles = {e['title'] for e in existing_events.values()}\<close>; an event without a
  title raises KeyError.
\<close>

fun existing_titles :: "catalog \<Rightarrow> exn + pystr list" where
  "existing_titles [] = Inr []"
| "existing_titles ((k, e) # rest) =
     (case map_of e ''title'' of
        None \<Rightarrow> Inl KeyError
      | Some t \<Rightarrow> (case existing_titles rest of Inl x \<Rightarrow> Inl x | Inr ts \<Rightarrow> Inr (t # ts)))"

text \<open>
  \<open>broadcast_new_event\<close>: the message text subscripts the event at \<open>title\<close>,
  \<open>location\<close>, \<open>date_display\<close>, \<open>store\<close> and \<open>id\<close> (lines 378 to 387), outside any
  \<open>try\<close>, so a missing key raises KeyError to the caller. Sending the message to the
  users is outside the model; a failed send is caught per user (line 398).
\<close>

definition broadcast_new_event :: "event \<Rightarrow> exn + unit" where
  "broadcast_new_event event =
     (if map_of event ''title'' = None \<or> map_of event ''location'' = None \<or>
         map_of event ''date_display'' = None \<or> map_of event ''store'' = None \<or>
         map_of event ''id'' = None
      then Inl KeyError else Inr ())"

text \<open>
  The loop over \<open>all_new_events\<close>. The state is \<open>existing_events\<close> (mutated in place by
  the source), \<open>new_count\<close>, and the events that were broadcast, in order. \<open>now k\<close> is
  the value of \<open>datetime.now().isoformat()\<close> at the insertion made when \<open>new_count = k\<close>.
  \<open>existing_titles\<close> is computed before the loop and never extended. An exception leaves
  the loop and the task, before \<open>save_data\<close>.
\<close>

fun merge_loop ::
  "(nat \<Rightarrow> pystr) \<Rightarrow> pystr list \<Rightarrow> event list \<Rightarrow> catalog \<times> nat \<times> event list
     \<Rightarrow> exn + (catalog \<times> nat \<times> event list)" where
  "merge_loop now titles [] st = Inr st"
| "merge_loop now titles (event # rest) (existing_events, new_count, sent) =
     (case map_of event ''title'' of
        None \<Rightarrow> Inl KeyError
      | Some t \<Rightarrow>
          if t \<notin> set titles then
            (let event_id = u ''auto_'' @ str (length existing_events + new_count + 1);
                 event1 = AList.update ''id'' event_id event;
                 event2 = AList.update ''created_at'' (now new_count) event1
             in (case broadcast_new_event event2 of
                   Inl x \<Rightarrow> Inl x
                 | Inr _ \<Rightarrow>
                     merge_loop now titles rest
                       (AList.update event_id event2 existing_events, new_count + 1,
                        sent @ [event2])))
          else merge_loop now titles rest (existing_events, new_count, sent))"

text \<open>
  \<open>auto_scrape_task\<close> after the scrape: \<open>file\<close> is what \<open>load_data(EVENTS_FILE)\<close>
  returns. The result is the content of the events file afterwards (it is saved only when
  \<open>new_count > 0\<close>) and the events that were broadcast.
\<close>

definition auto_scrape_task ::
  "(nat \<Rightarrow> pystr) \<Rightarrow> catalog \<Rightarrow> event list \<Rightarrow> exn + (catalog \<times> event list)" where
  "auto_scrape_task now file all_new_events =
     (if all_new_events = [] then Inr (file, [])
      else (case existing_titles file of
              Inl x \<Rightarrow> Inl x
            | Inr titles \<Rightarrow>
                (case merge_loop now titles all_new_events (file, 0, []) of
                   Inl x \<Rightarrow> Inl x
                 | Inr (existing_events, new_count, sent) \<Rightarrow>
                     if new_count > 0 then Inr (existing_events, sent) else Inr (file, sent))))"

text \<open>
  The event as it is stored and broadcast: the candidate with \<open>id\<close> and \<open>created_at\<close> set
  (lines 164 and 165).
\<close>

definition stamp :: "pystr \<Rightarrow> pystr \<Rightarrow> event \<Rightarrow> event" where
  "stamp event_id created event =
     AList.update ''created_at'' created (AList.update ''id'' event_id event)"

section \<open>The parser and classifier: \<open>scrape_lego_news\<close>\<close>

subsection \<open>Characters, \<open>lower()\<close>, \<open>in\<close>\<close>

text \<open>
  \<open>\d\<close> in a \<open>str\<close> pattern matches the decimal digits of every script (general category
  Nd). They come in runs of ten, a zero to a nine; \<open>digit_zeros\<close> lists the zeros, as of
  Unicode 14 (Python 3.11; later versions add scripts).
\<close>

definition digit_zeros :: "nat list" where
  "digit_zeros =
     [0x30, 0x660, 0x6F0, 0x7C0, 0x966, 0x9E6, 0xA66, 0xAE6, 0xB66, 0xBE6, 0xC66, 0xCE6,
      0xD66, 0xDE6, 0xE50, 0xED0, 0xF20, 0x1040, 0x1090, 0x17E0, 0x1810, 0x1946, 0x19D0,
      0x1A80, 0x1A90, 0x1B50, 0x1BB0, 0x1C40, 0x1C50, 0xA620, 0xA8D0, 0xA900, 0xA9D0,
      0xA9F0, 0xAA50, 0xABF0, 0xFF10, 0x104A0, 0x10D30, 0x11066, 0x110F0, 0x11136, 0x111D0,
      0x112F0, 0x11450, 0x114D0, 0x11650, 0x116C0, 0x11730, 0x118E0, 0x11950, 0x11C50,
      0x11D50, 0x11DA0, 0x16A60, 0x16AC0, 0x16B50, 0x1D7CE, 0x1D7D8, 0x1D7E2, 0x1D7EC,
      0x1D7F6, 0x1E140, 0x1E2F0, 0x1E950, 0x1FBF0]"

definition is_digit :: "nat \<Rightarrow> bool" where
  "is_digit c =
     (if c < 0x660 then 0x30 \<le> c \<and> c \<le> 0x39
      else list_ex (\<lambda>z. z \<le> c \<and> c \<le> z + 9) digit_zeros)"

text \<open>\<open>\s\<close> in a \<open>str\<close> pattern: the code points for which \<open>str.isspace\<close> holds.\<close>

definition is_space :: "nat \<Rightarrow> bool" where
  "is_space c =
     ((0x09 \<le> c \<and> c \<le> 0x0D) \<or> (0x1C \<le> c \<and> c \<le> 0x20) \<or> c = 0x85 \<or> c = 0xA0 \<or>
      c = 0x1680 \<or> (0x2000 \<le> c \<and> c \<le> 0x200A) \<or> c = 0x2028 \<or> c = 0x2029 \<or>
      c = 0x202F \<or> c = 0x205F \<or> c = 0x3000)"

text \<open>
  \<open>re.IGNORECASE\<close> on a letter of the pattern: a character of the text matches an ASCII
  letter when it is that letter in either case, or the dotted capital or the dotless small
  i (for i), the long s (for s), the Kelvin sign (for k). \<open>re_fold\<close> sends each of these
  to the small ASCII letter and leaves every other code point alone.
\<close>

definition re_fold :: "nat \<Rightarrow> nat" where
  "re_fold c =
     (if 0x41 \<le> c \<and> c \<le> 0x5A then c + 0x20
      else if c = 0x130 \<or> c = 0x131 then 0x69
      else if c = 0x17F then 0x73
      else if c = 0x212A then 0x6B
      else c)"

text \<open>
  \<open>s.lower()\<close>. An ASCII capital becomes its small letter. Of all other code points only
  two lower to text with an ASCII character in it: the dotted capital I (to i and a
  combining dot) and the Kelvin sign (to k). Every further code point lowers to non-ASCII
  text; the model leaves it as it is, which is all the same to a search for ASCII text,
  the only use the program makes of \<open>lower()\<close>.
\<close>

definition lower_char :: "nat \<Rightarrow> pystr" where
  "lower_char c =
     (if 0x41 \<le> c \<and> c \<le> 0x5A then [c + 0x20]
      else if c = 0x130 then [0x69, 0x307]
      else if c = 0x212A then [0x6B]
      else [c])"

definition lower :: "pystr \<Rightarrow> pystr" where
  "lower s = concat (map lower_char s)"

text \<open>\<open>sub in s\<close> on strings.\<close>

fun py_in :: "pystr \<Rightarrow> pystr \<Rightarrow> bool" where
  "py_in sub [] = (sub = [])"
| "py_in sub (c # cs) = (prefix sub (c # cs) \<or> py_in sub cs)"

subsection \<open>The date pattern\<close>

text \<open>
  \<open>re.search(r'(\d{1,2})\s+(January|...|December)\s*(\d{4})?', title, re.IGNORECASE)\<close>,
  as the backtracking matcher runs it. \<open>re_search\<close> tries the start positions from the
  left; \<open>match_here\<close> is the pattern anchored at one position: two digits first, one digit
  when that fails (\<open>{1,2}\<close> is greedy); \<open>match_after_day\<close> is \<open>\s+\<close>, the month
  alternatives in the order written, \<open>\s*\<close> and the optional year. \<open>\s+\<close> takes the whole
  run of white space: giving some of it back leaves a white-space character where a month
  has to start, so no shorter run can match. After the month nothing can fail, so the greedy
  \<open>\s*\<close> is never shortened either, and group 3 is set exactly when four digits follow it.
  The result is \<open>(group(1), group(2), group(3))\<close>, the texts as they stand in the title.
\<close>

definition month_names :: "pystr list" where
  "month_names = map u [''January'', ''February'', ''March'', ''April'', ''May'', ''June'',
     ''July'', ''August'', ''September'', ''October'', ''November'', ''December'']"

fun match_month :: "pystr list \<Rightarrow> pystr \<Rightarrow> (pystr \<times> pystr) option" where
  "match_month [] s = None"
| "match_month (m # ms) s =
     (if length m \<le> length s \<and> map re_fold (take (length m) s) = map re_fold m
      then Some (take (length m) s, drop (length m) s)
      else match_month ms s)"

definition match_year :: "pystr \<Rightarrow> pystr option" where
  "match_year s =
     (let r = dropWhile is_space s
      in if 4 \<le> length r \<and> list_all is_digit (take 4 r) then Some (take 4 r) else None)"

definition match_after_day ::
  "pystr \<Rightarrow> pystr \<Rightarrow> (pystr \<times> pystr \<times> pystr option) option" where
  "match_after_day day s =
     (if takeWhile is_space s = [] then None
      else (case match_month month_names (dropWhile is_space s) of
              None \<Rightarrow> None
            | Some (month, r) \<Rightarrow> Some (day, month, match_year r)))"

fun match_here :: "pystr \<Rightarrow> (pystr \<times> pystr \<times> pystr option) option" where
  "match_here (a # b # r) =
     (case (if is_digit a \<and> is_digit b then match_after_day [a, b] r else None) of
        Some g \<Rightarrow> Some g
      | None \<Rightarrow> if is_digit a then match_after_day [a] (b # r) else None)"
| "match_here [a] = (if is_digit a then match_after_day [a] [] else None)"
| "match_here [] = None"

fun re_search :: "pystr \<Rightarrow> (pystr \<times> pystr \<times> pystr option) option" where
  "re_search [] = match_here []"
| "re_search (c # cs) =
     (case match_here (c # cs) of Some g \<Rightarrow> Some g | None \<Rightarrow> re_search cs)"

subsection \<open>One article block\<close>

text \<open>
  An \<open>article\<close> element as the loop body reads it: the texts (\<open>get_text(strip=True)\<close>) of
  its \<open>h2\<close> and of its \<open>h3\<close> descendants and the \<open>href\<close> attributes of its \<open>a\<close>
  descendants (\<open>None\<close>: the element has no such attribute), each in document order.
\<close>

record article =
  h2_texts :: "pystr list"
  h3_texts :: "pystr list"
  a_hrefs :: "pystr option list"

text \<open>\<open>article.find('h2') or article.find('h3')\<close>, then its text.\<close>

definition title_elem :: "article \<Rightarrow> pystr option" where
  "title_elem article =
     (case h2_texts article of
        x # _ \<Rightarrow> Some x
      | [] \<Rightarrow> (case h3_texts article of y # _ \<Rightarrow> Some y | [] \<Rightarrow> None))"

definition cities :: "pystr list" where
  "cities = map u [''London'', ''Manchester'', ''Birmingham'', ''Liverpool'', ''Glasgow'',
     ''Leeds'', ''Edinburgh'']"

text \<open>The loop over \<open>cities\<close>, leaving at the first city found.\<close>

fun city_loop :: "pystr list \<Rightarrow> pystr \<Rightarrow> pystr \<Rightarrow> pystr" where
  "city_loop [] title location = location"
| "city_loop (city # rest) title location =
     (if py_in (lower city) (lower title) then city else city_loop rest title location)"

text \<open>The texts of lines 131 and 133.\<close>

definition pending_label :: pystr where
  "pending_label = [0x5F85, 0x516C, 0x5E03]"

definition scrape_description :: pystr where
  "scrape_description =
     [0x67E5, 0x770B, 0x9023, 0x7D50, 0x4E86, 0x89E3, 0x6D3B, 0x52D5, 0x8A73, 0x60C5]"

text \<open>
  The body of the loop over the articles; \<open>year\<close> is \<open>datetime.now().year\<close>. \<open>None\<close> is a
  block that adds no event: one of the two \<open>continue\<close>s, or an exception caught at line
  138, which only \<open>article.find('a')['href']\<close> on an element without \<open>href\<close> raises.
\<close>

definition process_article :: "nat \<Rightarrow> article \<Rightarrow> event option" where
  "process_article year article =
     (case title_elem article of
        None \<Rightarrow> None
      | Some title \<Rightarrow>
          if \<not> py_in (u ''free'') (lower title) \<or> \<not> py_in (u ''lego'') (lower title)
          then None
          else
            (let event_date =
                   (case re_search title of
                      None \<Rightarrow> None
                    | Some (day, month, group3) \<Rightarrow>
                        Some ((case group3 of Some y \<Rightarrow> y | None \<Rightarrow> str year)
                              @ u ''-'' @ month @ u ''-'' @ day));
                 (store, location) =
                   (if py_in (u ''smyths'') (lower title)
                    then (u ''Smyths Toys'', u ''UK Smyths Stores'')
                    else if py_in (u ''john lewis'') (lower title)
                    then (u ''John Lewis'', u ''UK'')
                    else (u ''LEGO Store'', u ''UK''));
                 location = city_loop cities title location
             in (case a_hrefs article of
                   None # _ \<Rightarrow> None
                 | links \<Rightarrow>
                     Some [(''title'', title),
                           (''location'', location),
                           (''date'', case event_date of Some d \<Rightarrow> d | None \<Rightarrow> u ''TBA''),
                           (''date_display'',
                              case event_date of Some d \<Rightarrow> d | None \<Rightarrow> pending_label),
                           (''store'', store),
                           (''description'', scrape_description),
                           (''source'', u ''auto_scrape''),
                           (''url'', case links of Some href # _ \<Rightarrow> href | _ \<Rightarrow> [])])))"

subsection \<open>The page\<close>

text \<open>
  The response: its status and the \<open>article\<close> elements of the page in document order
  (\<open>soup.find_all('article')\<close>). \<open>None\<close> is a request that raised; the outer
  \<open>except\<close> then returns the empty list.
\<close>

record response =
  status :: nat
  articles :: "article list"

fun articles_loop :: "nat \<Rightarrow> article list \<Rightarrow> event list" where
  "articles_loop year [] = []"
| "articles_loop year (article # rest) =
     (case process_article year article of
        None \<Rightarrow> articles_loop year rest
      | Some event \<Rightarrow> event # articles_loop year rest)"

definition scrape_lego_news :: "nat \<Rightarrow> response option \<Rightarrow> event list" where
  "scrape_lego_news year resp =
     (case resp of
        None \<Rightarrow> []
      | Some r \<Rightarrow> if status r = 200 then articles_loop year (take 5 (articles r)) else [])"

section \<open>The calendar encoder: \<open>create_ics_file\<close> and \<open>export_all_events\<close>\<close>

subsection \<open>The libraries\<close>

text \<open>
  An \<open>icalendar\<close> component: its name, its properties in the order they were added, and
  its sub-components. The document that \<open>cal.to_ical()\<close> serialises is modelled by the
  calendar component itself. \<open>'dt\<close> is the type of \<open>datetime\<close> values.
\<close>

datatype 'dt prop_value = Text pystr | DateTime 'dt | Duration int

datatype 'dt component =
  Component (comp_name: string) (props: "(string \<times> 'dt prop_value) list")
    (subcomponents: "'dt component list")

definition Calendar :: "'dt component" where
  "Calendar = Component ''VCALENDAR'' [] []"

definition ICalEvent :: "'dt component" where
  "ICalEvent = Component ''VEVENT'' [] []"

text \<open>\<open>component.add(name, value)\<close> and \<open>component.add_component(sub)\<close>.\<close>

definition add :: "'dt component \<Rightarrow> string \<Rightarrow> 'dt prop_value \<Rightarrow> 'dt component" where
  "add c name v = Component (comp_name c) (props c @ [(name, v)]) (subcomponents c)"

definition add_component :: "'dt component \<Rightarrow> 'dt component \<Rightarrow> 'dt component" where
  "add_component c sub = Component (comp_name c) (props c) (subcomponents c @ [sub])"

text \<open>
  \<open>component.add(name)\<close>, the call of line 58. The method is
  \<open>add(self, name, value, parameters=None, encode=1)\<close>: \<open>value\<close> has no default, so a call
  with the name alone raises TypeError before the method runs. \<open>None\<close> is that exception.
\<close>

definition add_without_value :: "'dt component \<Rightarrow> string \<Rightarrow> 'dt component option" where
  "add_without_value c name = None"

text \<open>
  The date functions are parameters: \<open>datetime.fromisoformat\<close>,
  \<open>timezone('Europe/London').localize\<close> and \<open>dt + timedelta(hours=h)\<close>. Each may raise
  (\<open>None\<close>): ValueError on a text that is not an ISO date, ValueError on a datetime that
  already carries a time zone, OverflowError past the last representable date.
\<close>

record 'dt datelib =
  fromisoformat :: "pystr \<Rightarrow> 'dt option"
  localize :: "'dt \<Rightarrow> 'dt option"
  plus_hours :: "'dt \<Rightarrow> int \<Rightarrow> 'dt option"

text \<open>\<open>event.get(key, default)\<close>.\<close>

definition get :: "event \<Rightarrow> string \<Rightarrow> pystr \<Rightarrow> pystr" where
  "get event key dflt = (case map_of event key of Some v \<Rightarrow> v | None \<Rightarrow> dflt)"

text \<open>The text of lines 45 and 293 before the store name, and the text of line 61.\<close>

definition store_label :: pystr where
  "store_label = [0x5E97, 0x8216, 0x3A, 0x20]"

definition alarm_text :: pystr where
  "alarm_text =
     [0x660E, 0x5929, 0x6709, 0x20, 0x4C, 0x45, 0x47, 0x4F, 0x20, 0x514D, 0x8CBB, 0x6D3B,
      0x52D5, 0xFF01]"

subsection \<open>\<open>create_ics_file\<close>\<close>

text \<open>Lines 43 to 46: the event component with summary, description and location.\<close>

definition single_head :: "event \<Rightarrow> pystr \<Rightarrow> pystr \<Rightarrow> pystr \<Rightarrow> 'dt component" where
  "single_head event title store location =
     add (add (add ICalEvent ''summary'' (Text title))
       ''description''
         (Text (get event ''description'' [] @ [0x0A, 0x0A] @ store_label @ store)))
       ''location'' (Text location)"

text \<open>
  Lines 50 to 55, the first half of the \<open>try\<close> block: the component with start and end.
  \<open>None\<close> is an exception.
\<close>

definition single_dated ::
  "'dt datelib \<Rightarrow> event \<Rightarrow> 'dt component \<Rightarrow> 'dt component option" where
  "single_dated lib event ical_event =
     (case map_of event ''date'' of
        None \<Rightarrow> None
      | Some d \<Rightarrow>
     (case fromisoformat lib d of
        None \<Rightarrow> None
      | Some naive \<Rightarrow>
     (case localize lib naive of
        None \<Rightarrow> None
      | Some event_date \<Rightarrow>
     (case plus_hours lib event_date 2 of
        None \<Rightarrow> None
      | Some dtend \<Rightarrow>
          Some (add (add ical_event ''dtstart'' (DateTime event_date))
                  ''dtend'' (DateTime dtend))))))"

text \<open>
  The whole \<open>try\<close> block, lines 50 to 61. \<open>None\<close> is an exception, which line 63 catches
  whatever it is. Lines 59 to 61 fill the alarm that line 58 is meant to give.
\<close>

definition single_date_block ::
  "'dt datelib \<Rightarrow> event \<Rightarrow> 'dt component \<Rightarrow> 'dt component option" where
  "single_date_block lib event ical_event =
     (case single_dated lib event ical_event of
        None \<Rightarrow> None
      | Some dated \<Rightarrow>
     (case add_without_value dated ''valarm'' of
        None \<Rightarrow> None
      | Some alarm \<Rightarrow>
          Some (add (add (add alarm ''trigger'' (Duration (- 86400)))
                  ''action'' (Text (u ''DISPLAY'')))
                  ''description'' (Text alarm_text))))"

text \<open>The uid of line 67.\<close>

definition single_uid :: "event \<Rightarrow> pystr" where
  "single_uid event = get event ''id'' (u ''unknown'') @ u ''@legoeventsuk''"

text \<open>
  The result is \<open>Inl KeyError\<close> when a subscript outside the \<open>try\<close> block fails,
  \<open>Inr None\<close> when the function returns \<open>None\<close>, and \<open>Inr (Some cal)\<close> when it returns
  the document.
\<close>

definition create_ics_file :: "'dt datelib \<Rightarrow> event \<Rightarrow> exn + 'dt component option" where
  "create_ics_file lib event =
     (let cal = add (add Calendar ''prodid'' (Text (u ''-//LEGO Events UK//EN'')))
                  ''version'' (Text (u ''2.0''))
      in (case map_of event ''title'' of
            None \<Rightarrow> Inl KeyError
          | Some title \<Rightarrow>
         (case map_of event ''store'' of
            None \<Rightarrow> Inl KeyError
          | Some store \<Rightarrow>
         (case map_of event ''location'' of
            None \<Rightarrow> Inl KeyError
          | Some location \<Rightarrow>
         (case single_date_block lib event (single_head event title store location) of
            None \<Rightarrow> Inr None
          | Some ical_event \<Rightarrow>
              Inr (Some (add_component cal
                           (add ical_event ''uid'' (Text (single_uid event))))))))))"

subsection \<open>\<open>export_all_events\<close>\<close>

text \<open>
  Lines 291 to 302, the component of one event; \<open>None\<close> is an exception, which line 307
  catches: a missing key, a date that does not parse, cannot be localised, or has no
  representable end.
\<close>

definition batch_component :: "'dt datelib \<Rightarrow> pystr \<Rightarrow> event \<Rightarrow> 'dt component option" where
  "batch_component lib event_id event =
     (case map_of event ''title'' of
        None \<Rightarrow> None
      | Some title \<Rightarrow>
     (case map_of event ''store'' of
        None \<Rightarrow> None
      | Some store \<Rightarrow>
     (case map_of event ''location'' of
        None \<Rightarrow> None
      | Some location \<Rightarrow>
     (case map_of event ''date'' of
        None \<Rightarrow> None
      | Some d \<Rightarrow>
     (case fromisoformat lib d of
        None \<Rightarrow> None
      | Some naive \<Rightarrow>
     (case localize lib naive of
        None \<Rightarrow> None
      | Some event_date \<Rightarrow>
     (case plus_hours lib event_date 2 of
        None \<Rightarrow> None
      | Some dtend \<Rightarrow>
          Some (add (add (add (add (add (add ICalEvent
                  ''summary'' (Text title))
                  ''description''
                    (Text (get event ''description'' [] @ [0x0A] @ store_label @ store)))
                  ''location'' (Text location))
                  ''dtstart'' (DateTime event_date))
                  ''dtend'' (DateTime dtend))
                  ''uid'' (Text (event_id @ u ''@legoeventsuk''))))))))))"

text \<open>The loop over \<open>events.items()\<close>; the state is \<open>cal\<close> and \<open>count\<close>.\<close>

fun export_loop ::
  "'dt datelib \<Rightarrow> catalog \<Rightarrow> 'dt component \<times> nat \<Rightarrow> 'dt component \<times> nat" where
  "export_loop lib [] st = st"
| "export_loop lib ((event_id, event) # rest) (cal, count) =
     (if map_of event ''date'' = Some (u ''TBA'') then export_loop lib rest (cal, count)
      else (case batch_component lib event_id event of
              None \<Rightarrow> export_loop lib rest (cal, count)
            | Some ical_event \<Rightarrow>
                export_loop lib rest (add_component cal ical_event, count + 1)))"

text \<open>
  The three ways the handler ends: the reply that there are no events, the reply that no
  event has a valid date, and the document with the number of events in its caption.
\<close>

datatype 'dt export_result = NoEvents | NoValidDates | Exported "'dt component" nat

definition export_all_events :: "'dt datelib \<Rightarrow> catalog \<Rightarrow> 'dt export_result" where
  "export_all_events lib events =
     (if events = [] then NoEvents
      else (case export_loop lib events
                   (add (add Calendar ''prodid'' (Text (u ''-//LEGO Events UK//EN'')))
                      ''version'' (Text (u ''2.0'')), 0) of
              (cal, count) \<Rightarrow> if count = 0 then NoValidDates else Exported cal count))"

section \<open>Notions the properties are stated with\<close>

subsection \<open>The catalog's titles, and the keys a broadcast reads\<close>

definition catalog_titles :: "catalog \<Rightarrow> pystr option list" where
  "catalog_titles file = map (\<lambda>(k, e). map_of e ''title'') file"

definition broadcastable :: "event \<Rightarrow> bool" where
  "broadcastable c =
     (map_of c ''title'' \<noteq> None \<and> map_of c ''location'' \<noteq> None \<and>
      map_of c ''date_display'' \<noteq> None \<and> map_of c ''store'' \<noteq> None)"

subsection \<open>What the date pattern means\<close>

text \<open>
  The pattern in words, to compare \<open>re_search\<close> with. A month name is one of the twelve in
  any letter case; the title holds an occurrence where, after \<open>pre\<close>, come a day of one
  or two digits, white space and a month name; a year follows the month when, after
  optional white space, come four digits.
\<close>

definition is_month_name :: "pystr \<Rightarrow> bool" where
  "is_month_name m = (map re_fold m \<in> set (map (map re_fold) month_names))"

definition date_occurrence ::
  "pystr \<Rightarrow> pystr \<Rightarrow> pystr \<Rightarrow> pystr \<Rightarrow> pystr \<Rightarrow> pystr \<Rightarrow> bool" where
  "date_occurrence title pre day ws month post =
     (title = pre @ day @ ws @ month @ post \<and>
      day \<noteq> [] \<and> length day \<le> 2 \<and> list_all is_digit day \<and>
      ws \<noteq> [] \<and> list_all is_space ws \<and> is_month_name month)"


definition year_follows :: "pystr \<Rightarrow> pystr \<Rightarrow> bool" where
  "year_follows post y =
     (\<exists>ws rest. post = ws @ y @ rest \<and> list_all is_space ws \<and> length y = 4 \<and>
        list_all is_digit y)"

subsection \<open>What survives the batch export\<close>

text \<open>
  What one catalog entry contributes to the batch document: nothing when its date is the
  sentinel, else the component built for it, if building it succeeds.
\<close>

definition batch_survivor :: "'dt datelib \<Rightarrow> pystr \<times> event \<Rightarrow> 'dt component option" where
  "batch_survivor lib =
     (\<lambda>(event_id, event).
        if map_of event ''date'' = Some (u ''TBA'') then None
        else batch_component lib event_id event)"

subsection \<open>Data for the examples\<close>

text \<open>The dict of lines 127 to 136 with the given values.\<close>

definition candidate ::
  "pystr \<Rightarrow> pystr \<Rightarrow> pystr \<Rightarrow> pystr \<Rightarrow> pystr \<Rightarrow> pystr \<Rightarrow> event" where
  "candidate title location date date_display store url =
     [(''title'', title), (''location'', location), (''date'', date),
      (''date_display'', date_display), (''store'', store),
      (''description'', scrape_description), (''source'', u ''auto_scrape''), (''url'', url)]"

text \<open>
  The candidate that \<open>process_article\<close> makes of a heading without a date, a city or a
  store name.
\<close>

definition scraped :: "pystr \<Rightarrow> event" where
  "scraped title =
     [(''title'', title), (''location'', u ''UK''), (''date'', u ''TBA''),
      (''date_display'', pending_label), (''store'', u ''LEGO Store''),
      (''description'', scrape_description), (''source'', u ''auto_scrape''), (''url'', [])]"

text \<open>A page: six articles, of which the loop reads five.\<close>

definition sample_page :: response where
  "sample_page = \<lparr>status = 200, articles =
     [\<lparr>h2_texts = [u ''Free LEGO set at selected stores''], h3_texts = [],
        a_hrefs = [Some (u ''/a'')]\<rparr>,
      \<lparr>h2_texts = [u ''LEGO minifigure giveaway''], h3_texts = [], a_hrefs = []\<rparr>,
      \<lparr>h2_texts = [], h3_texts = [], a_hrefs = [Some (u ''/c'')]\<rparr>,
      \<lparr>h2_texts = [], h3_texts = [u ''Free LEGO at John Lewis 12 may 2026''],
        a_hrefs = []\<rparr>,
      \<lparr>h2_texts = [u ''Free LEGO''], h3_texts = [], a_hrefs = [None]\<rparr>,
      \<lparr>h2_texts = [u ''Free LEGO in Leeds''], h3_texts = [], a_hrefs = []\<rparr>]\<rparr>"

text \<open>
  Values of the three date functions for the examples: a datetime is its wall-clock time in
  seconds since the start of year 1 with its time zone, if any. \<open>2025-12-05\<close> parses to a
  naive datetime, \<open>2025-12-05T10:00:00+00:00\<close> to one that carries UTC, \<open>TBA\<close> and the
  scraper's \<open>2025-December-5\<close> do not parse; localising refuses a datetime with a zone.
\<close>

definition sample_lib :: "(int \<times> pystr option) datelib" where
  "sample_lib =
     \<lparr>fromisoformat = (\<lambda>s. if s = u ''2025-12-05'' then Some (63900489600, None)
                            else if s = u ''2025-12-05T10:00:00+00:00''
                            then Some (63900525600, Some (u ''UTC'')) else None),
      localize = (\<lambda>(t, tz). case tz of None \<Rightarrow> Some (t, Some (u ''Europe/London''))
                              | Some _ \<Rightarrow> None),
      plus_hours = (\<lambda>(t, tz) h. Some (t + 3600 * h, tz))\<rparr>"

definition sample_event :: "pystr \<Rightarrow> event" where
  "sample_event d =
     [(''title'', u ''Free LEGO set''), (''location'', u ''London''), (''date'', d),
      (''date_display'', d), (''store'', u ''LEGO Store''), (''description'', u ''Details''),
      (''source'', u ''auto_scrape''), (''url'', []), (''id'', u ''auto_1''),
      (''created_at'', u ''2025-11-01T09:00:00'')]"

text \<open>The rules that evaluate the model on given values.\<close>

lemmas py_eval =
  u_def str.simps Let_def
  auto_scrape_task_def broadcast_new_event_def stamp_def
  is_digit_def is_space_def re_fold_def lower_def lower_char_def
  month_names_def match_year_def match_after_day_def
  title_elem_def cities_def pending_label_def scrape_description_def process_article_def
  scrape_lego_news_def
  Calendar_def ICalEvent_def add_def add_component_def add_without_value_def get_def
  store_label_def single_head_def single_dated_def single_date_block_def single_uid_def
  create_ics_file_def batch_component_def export_all_events_def batch_survivor_def
  catalog_titles_def candidate_def scraped_def sample_page_def sample_lib_def sample_event_def

section \<open>Properties of the deduplicator\<close>

subsection \<open>Decimal numerals are injective\<close>

lemma str_nonempty: "str n \<noteq> []"
  by (subst str.simps) simp

lemma str_inj: "str n = str m \<Longrightarrow> n = m"
proof (induction n arbitrary: m rule: str.induct)
  case (1 n)
  show ?case
  proof (cases "n < 10")
    case True
    then have sn: "str n = [48 + n]" by (subst str.simps) simp
    show ?thesis
    proof (cases "m < 10")
      case True
      then have "str m = [48 + m]" by (subst str.simps) simp
      with sn "1.prems" show ?thesis by simp
    next
      case False
      then have "str m = str (m div 10) @ [48 + m mod 10]" by (subst str.simps) simp
      with sn "1.prems" have "str (m div 10) = []" by simp
      then show ?thesis by (simp add: str_nonempty)
    qed
  next
    case False
    then have sn: "str n = str (n div 10) @ [48 + n mod 10]" by (subst str.simps) simp
    show ?thesis
    proof (cases "m < 10")
      case True
      then have "str m = [48 + m]" by (subst str.simps) simp
      with sn "1.prems" have "str (n div 10) = []" by simp
      then show ?thesis by (simp add: str_nonempty)
    next
      case mf: False
      then have sm: "str m = str (m div 10) @ [48 + m mod 10]" by (subst str.simps) simp
      from sn sm "1.prems" have a: "str (n div 10) = str (m div 10)"
        and b: "n mod 10 = m mod 10" by simp_all
      from "1.IH" [OF False a] have "n div 10 = m div 10" .
      with b show ?thesis by (metis div_mult_mod_eq)
    qed
  qed
qed

lemma auto_id_neq: "m \<noteq> m' \<Longrightarrow> u ''auto_'' @ str m \<noteq> u ''auto_'' @ str m'"
  by (auto dest: str_inj)

subsection \<open>The loop\<close>

lemma length_update_ge: "length al \<le> length (AList.update k v al)"
  by (induction al) auto

lemma stamp_lookup:
  "map_of (stamp i ts c) ''id'' = Some i"
  "map_of (stamp i ts c) ''title'' = map_of c ''title''"
  "map_of (stamp i ts c) ''location'' = map_of c ''location''"
  "map_of (stamp i ts c) ''date_display'' = map_of c ''date_display''"
  "map_of (stamp i ts c) ''store'' = map_of c ''store''"
  by (simp_all add: stamp_def update_conv')

text \<open>The broadcast of a stamped candidate raises exactly when the candidate lacks a key.\<close>

lemma broadcast_stamp:
  "broadcast_new_event (stamp i ts c) = (if broadcastable c then Inr () else Inl KeyError)"
  by (simp add: broadcast_new_event_def broadcastable_def stamp_lookup)

text \<open>One turn of the loop.\<close>

lemma merge_loop_step:
  "map_of c ''title'' = Some t \<Longrightarrow>
   merge_loop now titles (c # rest) (cat, n, sent) =
     (if t \<in> set titles then merge_loop now titles rest (cat, n, sent)
      else if \<not> broadcastable c then Inl KeyError
      else merge_loop now titles rest
             (AList.update (u ''auto_'' @ str (length cat + n + 1))
                (stamp (u ''auto_'' @ str (length cat + n + 1)) (now n) c) cat,
              n + 1,
              sent @ [stamp (u ''auto_'' @ str (length cat + n + 1)) (now n) c]))"
  using broadcast_stamp [of "u ''auto_'' @ str (length cat + n + 1)" "now n" c]
  by (simp add: Let_def stamp_def)

lemma merge_loop_titled:
  "merge_loop now titles (c # rest) st = Inr st' \<Longrightarrow> \<exists>t. map_of c ''title'' = Some t"
  by (cases st, cases "map_of c ''title''") auto

declare merge_loop.simps(2) [simp del]

lemma merge_loop_append:
  "merge_loop now titles (xs @ ys) st =
     (case merge_loop now titles xs st of
        Inl x \<Rightarrow> Inl x
      | Inr st' \<Rightarrow> merge_loop now titles ys st')"
proof (induction xs arbitrary: st)
  case Nil
  show ?case by simp
next
  case (Cons c xs)
  obtain cat n sent where st: "st = (cat, n, sent)" by (rule prod_cases3)
  show ?case
  proof (cases "map_of c ''title''")
    case None
    then show ?thesis unfolding st by (simp add: merge_loop.simps(2))
  next
    case (Some t)
    show ?thesis unfolding st by (simp add: merge_loop_step [OF Some] Cons.IH)
  qed
qed

text \<open>The loop raises only on a candidate that lacks a key the loop or the broadcast reads.\<close>

lemma merge_loop_total:
  "\<forall>c \<in> set cands. broadcastable c \<Longrightarrow> \<exists>st'. merge_loop now titles cands st = Inr st'"
proof (induction cands arbitrary: st)
  case Nil
  have "merge_loop now titles [] st = Inr st" by simp
  then show ?case by (rule exI)
next
  case (Cons c cands)
  obtain cat n sent where st: "st = (cat, n, sent)" by (rule prod_cases3)
  from Cons.prems have b: "broadcastable c" by simp
  then obtain t where t: "map_of c ''title'' = Some t" by (auto simp: broadcastable_def)
  from Cons.prems have "\<forall>c \<in> set cands. broadcastable c" by simp
  from Cons.IH [OF this] show ?case unfolding st by (simp add: merge_loop_step [OF t] b)
qed

text \<open>
  Every id the loop assigns from a state \<open>(cat, n, sent)\<close> on is \<open>auto_m\<close> with
  \<open>m \<ge> len(cat) + n + 1\<close>; any other key keeps its entry, and nothing leaves the broadcast list.
\<close>

lemma merge_loop_keeps:
  "merge_loop now titles cands (cat, n, sent) = Inr (cat', n', sent') \<Longrightarrow>
   (\<And>m. length cat + n + 1 \<le> m \<Longrightarrow> k \<noteq> u ''auto_'' @ str m) \<Longrightarrow>
   map_of cat' k = map_of cat k \<and> set sent \<subseteq> set sent' \<and> n \<le> n'"
proof (induction cands arbitrary: cat n sent)
  case Nil
  then show ?case by simp
next
  case (Cons c cands)
  from merge_loop_titled [OF Cons.prems(1)] obtain t where t: "map_of c ''title'' = Some t" ..
  note step = merge_loop_step [OF t, of now titles cands cat n sent]
  show ?case
  proof (cases "t \<in> set titles")
    case True
    with Cons.prems(1) step
    have "merge_loop now titles cands (cat, n, sent) = Inr (cat', n', sent')" by simp
    from Cons.IH [OF this Cons.prems(2)] show ?thesis by simp
  next
    case False
    define i where "i = u ''auto_'' @ str (length cat + n + 1)"
    define e where "e = stamp i (now n) c"
    from Cons.prems(1) step False
    have run: "merge_loop now titles cands (AList.update i e cat, n + 1, sent @ [e]) =
        Inr (cat', n', sent')"
      by (simp add: i_def e_def split: if_splits)
    have "k \<noteq> u ''auto_'' @ str m" if "length (AList.update i e cat) + (n + 1) + 1 \<le> m" for m
    proof -
      from that length_update_ge [of cat i e] have "length cat + n + 1 \<le> m" by simp
      then show ?thesis by (rule Cons.prems(2))
    qed
    from Cons.IH [OF run this]
    have "map_of cat' k = map_of (AList.update i e cat) k" and "set (sent @ [e]) \<subseteq> set sent'"
      and "n + 1 \<le> n'" by simp_all
    moreover have "k \<noteq> i" unfolding i_def by (rule Cons.prems(2)) simp
    ultimately show ?thesis by (simp add: update_conv')
  qed
qed

text \<open>
  A candidate whose title is not among the titles computed before the loop is stored and
  broadcast, whatever was inserted before it.
\<close>

lemma merge_loop_inserts:
  "merge_loop now titles cands (cat, n, sent) = Inr (cat', n', sent') \<Longrightarrow>
   c \<in> set cands \<Longrightarrow> map_of c ''title'' = Some t \<Longrightarrow> t \<notin> set titles \<Longrightarrow>
   \<exists>m k. length cat + n + 1 \<le> m \<and>
     stamp (u ''auto_'' @ str m) (now k) c \<in> set sent' \<and>
     map_of cat' (u ''auto_'' @ str m) = Some (stamp (u ''auto_'' @ str m) (now k) c)"
proof (induction cands arbitrary: cat n sent)
  case Nil
  then show ?case by simp
next
  case (Cons d cands)
  from merge_loop_titled [OF Cons.prems(1)] obtain v where v: "map_of d ''title'' = Some v" ..
  define i where "i = u ''auto_'' @ str (length cat + n + 1)"
  define e where "e = stamp i (now n) d"
  note step = merge_loop_step [OF v, of now titles cands cat n sent, folded i_def, folded e_def]
  show ?case
  proof (cases "c = d")
    case True
    with v Cons.prems have un: "v \<notin> set titles" by simp
    with step Cons.prems(1)
    have run: "merge_loop now titles cands (AList.update i e cat, n + 1, sent @ [e]) =
        Inr (cat', n', sent')"
      by (simp split: if_splits)
    have "i \<noteq> u ''auto_'' @ str m" if "length (AList.update i e cat) + (n + 1) + 1 \<le> m" for m
    proof -
      from that length_update_ge [of cat i e] have "length cat + n + 1 \<noteq> m" by simp
      then show ?thesis unfolding i_def by (rule auto_id_neq)
    qed
    from merge_loop_keeps [OF run this]
    have "map_of cat' i = Some e" and "e \<in> set sent'" by (auto simp: update_conv')
    with True show ?thesis unfolding e_def i_def by blast
  next
    case False
    with Cons.prems have cin: "c \<in> set cands" by simp
    show ?thesis
    proof (cases "v \<in> set titles")
      case True
      with step Cons.prems(1)
      have "merge_loop now titles cands (cat, n, sent) = Inr (cat', n', sent')"
        by simp
      from Cons.IH [OF this cin Cons.prems(3,4)] show ?thesis .
    next
      case un: False
      with step Cons.prems(1)
      have run: "merge_loop now titles cands (AList.update i e cat, n + 1, sent @ [e]) =
          Inr (cat', n', sent')"
        by (simp split: if_splits)
      from Cons.IH [OF run cin Cons.prems(3,4)] obtain m k where
        "length (AList.update i e cat) + (n + 1) + 1 \<le> m"
        "stamp (u ''auto_'' @ str m) (now k) c \<in> set sent'"
        "map_of cat' (u ''auto_'' @ str m) = Some (stamp (u ''auto_'' @ str m) (now k) c)"
        by blast
      moreover from this(1) length_update_ge [of cat i e] have "length cat + n + 1 \<le> m" by simp
      ultimately show ?thesis by blast
    qed
  qed
qed

text \<open>
  The titles broadcast by the loop are those of the candidates that are not among the
  titles computed before the loop, in order and with repetitions.
\<close>

lemma merge_loop_sent_titles:
  "merge_loop now titles cands (cat, n, sent) = Inr (cat', n', sent') \<Longrightarrow>
   map (\<lambda>e. map_of e ''title'') sent' =
     map (\<lambda>e. map_of e ''title'') sent @
     filter (\<lambda>t. t \<notin> Some ` set titles) (map (\<lambda>c. map_of c ''title'') cands)"
proof (induction cands arbitrary: cat n sent)
  case Nil
  then show ?case by simp
next
  case (Cons c cands)
  from merge_loop_titled [OF Cons.prems] obtain t where t: "map_of c ''title'' = Some t" ..
  note step = merge_loop_step [OF t, of now titles cands cat n sent]
  show ?case
  proof (cases "t \<in> set titles")
    case True
    with Cons.prems step
    have "merge_loop now titles cands (cat, n, sent) = Inr (cat', n', sent')" by simp
    from Cons.IH [OF this] True t show ?thesis by simp
  next
    case False
    define i where "i = u ''auto_'' @ str (length cat + n + 1)"
    from Cons.prems step False
    have "merge_loop now titles cands
            (AList.update i (stamp i (now n) c) cat, n + 1, sent @ [stamp i (now n) c]) =
          Inr (cat', n', sent')"
      by (simp add: i_def split: if_splits)
    from Cons.IH [OF this] False t show ?thesis by (auto simp: stamp_lookup)
  qed
qed

lemma existing_titles_catalog:
  "existing_titles loaded = Inr ts \<Longrightarrow> map Some ts = catalog_titles loaded"
  by (induction loaded arbitrary: ts)
    (auto simp: catalog_titles_def split: option.splits sum.splits)

lemma existing_titles_total:
  "None \<notin> set (catalog_titles loaded) \<Longrightarrow> \<exists>ts. existing_titles loaded = Inr ts"
  by (induction loaded) (auto simp: catalog_titles_def split: option.splits)

subsection \<open>Id assignment\<close>

text \<open>
  C1. The claim numbers the events added by one call \<open>auto_{size + k + 1}\<close>, \<open>size\<close> being
  the catalog's size when the call starts. The source computes
  \<open>len(existing_events) + new_count + 1\<close> after \<open>existing_events\<close> has already grown by the
  earlier insertions, so each insertion is counted twice: on an empty catalog two new
  scraped candidates get \<open>auto_1\<close> and \<open>auto_3\<close>, not \<open>auto_1\<close> and \<open>auto_2\<close>.
\<close>

theorem second_added_id_skips_a_number:
  "auto_scrape_task (\<lambda>k. u ''t'' @ str k) []
     [scraped (u ''Free LEGO A''), scraped (u ''Free LEGO B'')] =
     Inr ([(u ''auto_1'', stamp (u ''auto_1'') (u ''t0'') (scraped (u ''Free LEGO A''))),
           (u ''auto_3'', stamp (u ''auto_3'') (u ''t1'') (scraped (u ''Free LEGO B'')))],
          [stamp (u ''auto_1'') (u ''t0'') (scraped (u ''Free LEGO A'')),
           stamp (u ''auto_3'') (u ''t1'') (scraped (u ''Free LEGO B''))])"
  by (simp add: py_eval merge_loop.simps(2))

text \<open>
  C2. The claim says an id is never reused and no stored entry is overwritten. On the catalog
  that the run above leaves (keys \<open>auto_1\<close> and \<open>auto_3\<close>, size 2) the next new candidate is
  given \<open>auto_3\<close> again, and the entry of event B is replaced by it.
\<close>

theorem existing_id_reused_and_entry_overwritten:
  "auto_scrape_task (\<lambda>k. u ''u'' @ str k)
     [(u ''auto_1'', stamp (u ''auto_1'') (u ''t0'') (scraped (u ''Free LEGO A''))),
      (u ''auto_3'', stamp (u ''auto_3'') (u ''t1'') (scraped (u ''Free LEGO B'')))]
     [scraped (u ''Free LEGO C'')] =
     Inr ([(u ''auto_1'', stamp (u ''auto_1'') (u ''t0'') (scraped (u ''Free LEGO A''))),
           (u ''auto_3'', stamp (u ''auto_3'') (u ''u0'') (scraped (u ''Free LEGO C'')))],
          [stamp (u ''auto_3'') (u ''u0'') (scraped (u ''Free LEGO C''))])"
  by (simp add: py_eval merge_loop.simps(2))

text \<open>
  C3. The claim says a second run with the same candidates adds nothing. On the same
  catalog, with candidates C (new) and B (known), the first run stores C under B's id;
  B's title is then gone from the catalog, so the second run adds B again (under the same
  id, replacing C) and broadcasts it.
\<close>

theorem second_run_adds_again:
  "auto_scrape_task (\<lambda>k. u ''u'' @ str k)
     [(u ''auto_1'', stamp (u ''auto_1'') (u ''t0'') (scraped (u ''Free LEGO A''))),
      (u ''auto_3'', stamp (u ''auto_3'') (u ''t1'') (scraped (u ''Free LEGO B'')))]
     [scraped (u ''Free LEGO C''), scraped (u ''Free LEGO B'')] =
     Inr ([(u ''auto_1'', stamp (u ''auto_1'') (u ''t0'') (scraped (u ''Free LEGO A''))),
           (u ''auto_3'', stamp (u ''auto_3'') (u ''u0'') (scraped (u ''Free LEGO C'')))],
          [stamp (u ''auto_3'') (u ''u0'') (scraped (u ''Free LEGO C''))])
   \<and> auto_scrape_task (\<lambda>k. u ''v'' @ str k)
     [(u ''auto_1'', stamp (u ''auto_1'') (u ''t0'') (scraped (u ''Free LEGO A''))),
      (u ''auto_3'', stamp (u ''auto_3'') (u ''u0'') (scraped (u ''Free LEGO C'')))]
     [scraped (u ''Free LEGO C''), scraped (u ''Free LEGO B'')] =
     Inr ([(u ''auto_1'', stamp (u ''auto_1'') (u ''t0'') (scraped (u ''Free LEGO A''))),
           (u ''auto_3'', stamp (u ''auto_3'') (u ''v0'') (scraped (u ''Free LEGO B'')))],
          [stamp (u ''auto_3'') (u ''v0'') (scraped (u ''Free LEGO B''))])"
  by (simp add: py_eval merge_loop.simps(2))

subsection \<open>Two candidates with one title\<close>

text \<open>
  C10. The known titles are those of the catalog as loaded; the loop does not add to them:
  the events added by one call are the candidates whose title no event of the loaded
  catalog has, in order, each time they occur. So when two candidates of one call carry
  the same title and the loaded catalog has no event of that title, both are stored, under
  different ids, and both are broadcast: the resulting catalog holds two events of equal
  title. (Every event of the catalog has a title, and every candidate the keys that the
  broadcast reads, as scraped candidates do; otherwise the task raises KeyError.)
\<close>

theorem duplicate_titles_both_inserted:
  assumes titled: "None \<notin> set (catalog_titles loaded)"
    and keys: "\<forall>c \<in> set all_new_events. broadcastable c"
    and split: "all_new_events = xs @ c1 # ys @ c2 # zs"
    and t1: "map_of c1 ''title'' = Some t" and t2: "map_of c2 ''title'' = Some t"
    and new: "Some t \<notin> set (catalog_titles loaded)"
  shows "\<exists>cat sent i1 i2 k1 k2.
           auto_scrape_task now loaded all_new_events = Inr (cat, sent) \<and> i1 \<noteq> i2 \<and>
           map_of cat i1 = Some (stamp i1 (now k1) c1) \<and>
           map_of cat i2 = Some (stamp i2 (now k2) c2) \<and>
           stamp i1 (now k1) c1 \<in> set sent \<and> stamp i2 (now k2) c2 \<in> set sent \<and>
           map_of (stamp i1 (now k1) c1) ''title'' = Some t \<and>
           map_of (stamp i2 (now k2) c2) ''title'' = Some t \<and>
           map (\<lambda>e. map_of e ''title'') sent =
             filter (\<lambda>t. t \<notin> set (catalog_titles loaded))
               (map (\<lambda>c. map_of c ''title'') all_new_events)"
proof -
  let ?rest = "ys @ c2 # zs"
  from existing_titles_total [OF titled] obtain titles where
    titles: "existing_titles loaded = Inr titles" ..
  from existing_titles_catalog [OF titles] have ct: "Some ` set titles = set (catalog_titles loaded)"
    by (metis set_map)
  with new have new': "t \<notin> set titles" by auto
  from keys split have kx: "\<forall>c \<in> set xs. broadcastable c"
    and kr: "\<forall>c \<in> set ?rest. broadcastable c" and b1: "broadcastable c1" by auto
  from merge_loop_total [OF kx] obtain cat1 n1 sent1 where
    r1: "merge_loop now titles xs (loaded, 0, []) = Inr (cat1, n1, sent1)"
    by (metis prod_cases3)
  define i1 where "i1 = u ''auto_'' @ str (length cat1 + n1 + 1)"
  define e1 where "e1 = stamp i1 (now n1) c1"
  define cat2 where "cat2 = AList.update i1 e1 cat1"
  from merge_loop_total [OF kr] obtain cat' n' sent' where
    r2: "merge_loop now titles ?rest (cat2, n1 + 1, sent1 @ [e1]) = Inr (cat', n', sent')"
    by (metis prod_cases3)
  have "merge_loop now titles (c1 # ?rest) (cat1, n1, sent1) =
      merge_loop now titles ?rest (cat2, n1 + 1, sent1 @ [e1])"
    using new' b1 by (simp add: merge_loop_step [OF t1] cat2_def e1_def i1_def)
  with r1 r2 split
  have run: "merge_loop now titles all_new_events (loaded, 0, []) = Inr (cat', n', sent')"
    by (simp add: merge_loop_append)
  have fresh: "i1 \<noteq> u ''auto_'' @ str m" if "length cat2 + (n1 + 1) + 1 \<le> m" for m
  proof -
    from that length_update_ge [of cat1 i1 e1] have "length cat1 + n1 + 1 \<noteq> m"
      by (simp add: cat2_def)
    then show ?thesis unfolding i1_def by (rule auto_id_neq)
  qed
  from merge_loop_keeps [OF r2 fresh]
  have c1: "map_of cat' i1 = Some e1" and s1: "e1 \<in> set sent'" and pos: "0 < n'"
    by (auto simp: cat2_def update_conv')
  have "c2 \<in> set ?rest" by simp
  from merge_loop_inserts [OF r2 this t2 new'] obtain m k where
    m: "length cat2 + (n1 + 1) + 1 \<le> m"
    and s2: "stamp (u ''auto_'' @ str m) (now k) c2 \<in> set sent'"
    and c2: "map_of cat' (u ''auto_'' @ str m) = Some (stamp (u ''auto_'' @ str m) (now k) c2)"
    by blast
  from split have "all_new_events \<noteq> []" by simp
  with titles run pos have res: "auto_scrape_task now loaded all_new_events = Inr (cat', sent')"
    by (simp add: auto_scrape_task_def)
  from merge_loop_sent_titles [OF run] ct
  have st: "map (\<lambda>e. map_of e ''title'') sent' =
      filter (\<lambda>t. t \<notin> set (catalog_titles loaded)) (map (\<lambda>c. map_of c ''title'') all_new_events)"
    by simp
  from fresh [OF m] have ne: "i1 \<noteq> u ''auto_'' @ str m" .
  have tt: "map_of (stamp i1 (now n1) c1) ''title'' = Some t"
    "map_of (stamp (u ''auto_'' @ str m) (now k) c2) ''title'' = Some t"
    by (simp_all add: stamp_lookup t1 t2)
  from res ne c1 c2 s1 s2 tt st show ?thesis unfolding e1_def by blast
qed

theorem duplicate_titles_both_inserted_witness:
  "None \<notin> set (catalog_titles
      [(u ''auto_1'', stamp (u ''auto_1'') (u ''t0'') (scraped (u ''Free LEGO X'')))]) \<and>
   Some (u ''Free LEGO A'') \<notin> set (catalog_titles
      [(u ''auto_1'', stamp (u ''auto_1'') (u ''t0'') (scraped (u ''Free LEGO X'')))]) \<and>
   (\<exists>cat sent i1 i2 k1 k2.
      auto_scrape_task (\<lambda>k. u ''t'' @ str k)
        [(u ''auto_1'', stamp (u ''auto_1'') (u ''t0'') (scraped (u ''Free LEGO X'')))]
        [scraped (u ''Free LEGO A''), scraped (u ''Free LEGO X''),
         scraped (u ''Free LEGO A'')] = Inr (cat, sent) \<and> i1 \<noteq> i2 \<and>
      map_of cat i1 = Some (stamp i1 (u ''t'' @ str k1) (scraped (u ''Free LEGO A''))) \<and>
      map_of cat i2 = Some (stamp i2 (u ''t'' @ str k2) (scraped (u ''Free LEGO A''))) \<and>
      stamp i1 (u ''t'' @ str k1) (scraped (u ''Free LEGO A'')) \<in> set sent \<and>
      stamp i2 (u ''t'' @ str k2) (scraped (u ''Free LEGO A'')) \<in> set sent \<and>
      map_of (stamp i1 (u ''t'' @ str k1) (scraped (u ''Free LEGO A''))) ''title'' =
        Some (u ''Free LEGO A'') \<and>
      map_of (stamp i2 (u ''t'' @ str k2) (scraped (u ''Free LEGO A''))) ''title'' =
        Some (u ''Free LEGO A'') \<and>
      map (\<lambda>e. map_of e ''title'') sent =
        [Some (u ''Free LEGO A''), Some (u ''Free LEGO A'')])"
proof -
  let ?loaded = "[(u ''auto_1'', stamp (u ''auto_1'') (u ''t0'') (scraped (u ''Free LEGO X'')))]"
  let ?a = "scraped (u ''Free LEGO A'')"
  let ?cands = "[?a, scraped (u ''Free LEGO X''), ?a]"
  have h1: "None \<notin> set (catalog_titles ?loaded)" by (simp add: py_eval)
  have h2: "\<forall>c \<in> set ?cands. broadcastable c" by (simp add: broadcastable_def scraped_def)
  have h3: "?cands = [] @ ?a # [scraped (u ''Free LEGO X'')] @ ?a # []" by simp
  have h4: "map_of ?a ''title'' = Some (u ''Free LEGO A'')" by (simp add: scraped_def)
  have h5: "Some (u ''Free LEGO A'') \<notin> set (catalog_titles ?loaded)" by (simp add: py_eval)
  have f: "filter (\<lambda>t. t \<notin> set (catalog_titles ?loaded)) (map (\<lambda>c. map_of c ''title'') ?cands) =
      [Some (u ''Free LEGO A''), Some (u ''Free LEGO A'')]"
    by (simp add: py_eval)
  note th = duplicate_titles_both_inserted [OF h1 h2 h3 h4 h4 h5, of "\<lambda>k. u ''t'' @ str k",
      unfolded f]
  show ?thesis by (intro conjI h1 h5 th)
qed

section \<open>Properties of the parser and classifier\<close>

subsection \<open>\<open>in\<close> is containment\<close>

lemma py_in_sublist: "py_in sub s \<longleftrightarrow> sublist sub s"
  by (induction s) (auto simp: sublist_Cons_right)

subsection \<open>The matcher finds the pattern, and only the pattern\<close>

lemma no_digit_between:
  "0x109A \<le> c \<Longrightarrow> c < 0x17E0 \<Longrightarrow> \<not> is_digit c"
  "0x1C5A \<le> c \<Longrightarrow> c < 0xA620 \<Longrightarrow> \<not> is_digit c"
  by (simp_all add: is_digit_def digit_zeros_def)

lemma space_not_digit: "is_space c \<Longrightarrow> \<not> is_digit c"
proof -
  assume "is_space c"
  then consider "c < 0x660" "c < 0x30 \<or> 0x39 < c" | "0x109A \<le> c" "c < 0x17E0"
    | "0x1C5A \<le> c" "c < 0xA620"
    unfolding is_space_def by fastforce
  then show ?thesis
  proof cases
    case 1
    then show ?thesis by (auto simp: is_digit_def)
  next
    case 2
    then show ?thesis by (rule no_digit_between)
  next
    case 3
    then show ?thesis by (rule no_digit_between)
  qed
qed

lemma space_fold: "is_space c \<Longrightarrow> re_fold c = c"
  by (auto simp: is_space_def re_fold_def)

lemma month_names_start:
  "list_all (\<lambda>x. x \<noteq> [] \<and> \<not> is_space (hd x)) (map (map re_fold) month_names)"
  by (simp add: month_names_def u_def re_fold_def is_space_def)

lemma month_names_prefix_free:
  "list_all (\<lambda>x. list_all (\<lambda>y. prefix x y \<longrightarrow> x = y) (map (map re_fold) month_names))
     (map (map re_fold) month_names)"
  by (simp add: month_names_def u_def re_fold_def)

lemma month_starts_with_letter:
  assumes "is_month_name m"
  shows "m \<noteq> [] \<and> \<not> is_space (hd m)"
proof -
  from assms month_names_start
  have l: "map re_fold m \<noteq> []" and h: "\<not> is_space (hd (map re_fold m))"
    by (auto simp: is_month_name_def list_all_iff)
  from l obtain c cs where m: "m = c # cs" by (cases m) auto
  have "\<not> is_space c"
  proof
    assume "is_space c"
    with h m show False by (simp add: space_fold)
  qed
  with m show ?thesis by simp
qed













text \<open>Two occurrences that start at the same place are the same.\<close>

lemma date_occurrence_unique:
  assumes o1: "date_occurrence s pre d ws m post" and o2: "date_occurrence s pre' d' ws' m' post'"
    and len: "length pre = length pre'"
  shows "d = d' \<and> ws = ws' \<and> m = m' \<and> post = post'"
proof -
  from o1 have s1: "s = pre @ d @ ws @ m @ post" and d1: "d \<noteq> []" "length d \<le> 2"
    "list_all is_digit d" and w1: "ws \<noteq> []" "list_all is_space ws" and m1: "is_month_name m"
    by (simp_all add: date_occurrence_def)
  from o2 have s2: "s = pre' @ d' @ ws' @ m' @ post'" and d2: "d' \<noteq> []" "length d' \<le> 2"
    "list_all is_digit d'" and w2: "ws' \<noteq> []" "list_all is_space ws'" and m2: "is_month_name m'"
    by (simp_all add: date_occurrence_def)
  from s1 s2 len have r: "d @ ws @ m @ post = d' @ ws' @ m' @ post'" by simp
  from w1 obtain w wr where ws: "ws = w # wr" and w: "is_space w" by (cases ws) auto
  from w2 obtain w' wr' where ws': "ws' = w' # wr'" and w': "is_space w'" by (cases ws') auto
  have ld: "length d = length d'"
  proof (rule ccontr)
    assume ne: "length d \<noteq> length d'"
    from d1 d2 ne consider a b c where "d = [a]" "d' = [b, c]"
      | a b c where "d = [a, b]" "d' = [c]"
      by (cases d rule: match_here.cases; cases d' rule: match_here.cases) auto
    then show False
    proof cases
      case 1
      with r ws have "w = c" by simp
      with w d2(3) 1 show False by (auto dest: space_not_digit)
    next
      case 2
      with r ws' have "w' = b" by simp
      with w' d1(3) 2 show False by (auto dest: space_not_digit)
    qed
  qed
  with r have dd: "d = d'" and r2: "ws @ m @ post = ws' @ m' @ post'" by simp_all
  from month_starts_with_letter [OF m1] obtain c cs where m: "m = c # cs" and c: "\<not> is_space c"
    by (cases m) auto
  from month_starts_with_letter [OF m2] obtain c' cs' where m': "m' = c' # cs'"
    and c': "\<not> is_space c'"
    by (cases m') auto
  from w1(2) c have "takeWhile is_space (ws @ m @ post) = ws"
    by (simp add: takeWhile_append2 m list_all_iff)
  moreover from w2(2) c' have "takeWhile is_space (ws' @ m' @ post') = ws'"
    by (simp add: takeWhile_append2 m' list_all_iff)
  ultimately have ww: "ws = ws'" using r2 by simp
  with r2 have r3: "m @ post = m' @ post'" by simp
  let ?F = "map (map re_fold) month_names"
  from m1 m2 have f1: "map re_fold m \<in> set ?F" and f2: "map re_fold m' \<in> set ?F"
    by (simp_all add: is_month_name_def)
  have pf: "\<And>x y. x \<in> set ?F \<Longrightarrow> y \<in> set ?F \<Longrightarrow> prefix x y \<Longrightarrow> x = y"
    using month_names_prefix_free unfolding list_all_iff by blast
  from r3 have "prefix m m' \<or> prefix m' m" by (metis append_eq_append_conv2 prefixI)
  then have "map re_fold m = map re_fold m'"
  proof
    assume "prefix m m'"
    then have "prefix (map re_fold m) (map re_fold m')" by (rule map_mono_prefix)
    from pf [OF f1 f2 this] show ?thesis .
  next
    assume "prefix m' m"
    then have "prefix (map re_fold m') (map re_fold m)" by (rule map_mono_prefix)
    from pf [OF f2 f1 this] show ?thesis by simp
  qed
  then have "length m = length m'" by (rule map_eq_imp_length_eq)
  with r3 have "m = m'" "post = post'" by simp_all
  with dd ww show ?thesis by simp
qed

text \<open>Group 3 is the year that follows the month, if one does.\<close>

lemma match_year_Some_iff: "match_year s = Some y \<longleftrightarrow> year_follows s y"
proof
  assume "match_year s = Some y"
  then have y: "y = take 4 (dropWhile is_space s)" and l: "4 \<le> length (dropWhile is_space s)"
    and d: "list_all is_digit y"
    by (auto simp: match_year_def Let_def split: if_splits)
  have "s = takeWhile is_space s @ y @ drop 4 (dropWhile is_space s)"
    unfolding y by simp
  moreover have "list_all is_space (takeWhile is_space s)"
    by (simp add: list_all_iff) (metis set_takeWhileD)
  moreover from y l have "length y = 4" by simp
  ultimately show "year_follows s y" unfolding year_follows_def using d by blast
next
  assume "year_follows s y"
  then obtain ws rest where s: "s = ws @ y @ rest" and ws: "list_all is_space ws"
    and ly: "length y = 4" and dy: "list_all is_digit y" unfolding year_follows_def by blast
  from ly obtain c cs where y: "y = c # cs" by (cases y) auto
  with dy have "\<not> is_space c" by (auto dest: space_not_digit)
  with ws have "dropWhile is_space s = y @ rest"
    unfolding s y by (simp add: dropWhile_append2 list_all_iff)
  with ly dy show "match_year s = Some y" by (simp add: match_year_def)
qed

lemma year_follows_unique: "year_follows s y \<Longrightarrow> year_follows s y' \<Longrightarrow> y = y'"
  by (simp add: match_year_Some_iff [symmetric])

subsection \<open>The loop body\<close>

lemma process_article_relevant:
  assumes "title_elem art = Some title" "py_in (u ''free'') (lower title)"
    "py_in (u ''lego'') (lower title)"
  shows "process_article year art =
     (case a_hrefs art of
        None # _ \<Rightarrow> None
      | links \<Rightarrow>
          Some [(''title'', title),
                (''location'', city_loop cities title
                   (if py_in (u ''smyths'') (lower title) then u ''UK Smyths Stores''
                    else u ''UK'')),
                (''date'', case re_search title of None \<Rightarrow> u ''TBA''
                   | Some (day, month, group3) \<Rightarrow>
                       (case group3 of Some y \<Rightarrow> y | None \<Rightarrow> str year)
                       @ u ''-'' @ month @ u ''-'' @ day),
                (''date_display'', case re_search title of None \<Rightarrow> pending_label
                   | Some (day, month, group3) \<Rightarrow>
                       (case group3 of Some y \<Rightarrow> y | None \<Rightarrow> str year)
                       @ u ''-'' @ month @ u ''-'' @ day),
                (''store'', if py_in (u ''smyths'') (lower title) then u ''Smyths Toys''
                   else if py_in (u ''john lewis'') (lower title) then u ''John Lewis''
                   else u ''LEGO Store''),
                (''description'', scrape_description),
                (''source'', u ''auto_scrape''),
                (''url'', case links of Some href # _ \<Rightarrow> href | _ \<Rightarrow> [])])"
  using assms
  by (auto simp: process_article_def Let_def split: option.splits list.splits)

lemma process_article_SomeD:
  assumes "process_article year art = Some e"
  shows "\<exists>title. title_elem art = Some title \<and> py_in (u ''free'') (lower title) \<and>
           py_in (u ''lego'') (lower title)"
  using assms by (auto simp: process_article_def split: option.splits if_splits)

lemma city_loop_find:
  "city_loop cs title location =
     (case find (\<lambda>city. py_in (lower city) (lower title)) cs of
        Some city \<Rightarrow> city
      | None \<Rightarrow> location)"
  by (induction cs) auto

lemma title_elem_heading:
  "title_elem art = Some title \<Longrightarrow> title \<in> set (h2_texts art) \<union> set (h3_texts art)"
  by (auto simp: title_elem_def split: list.splits)

lemma articles_loop_map_filter:
  "articles_loop year as = List.map_filter (process_article year) as"
  by (induction as) (auto simp: List.map_filter_simps split: option.splits)

lemma length_map_filter_le: "length (List.map_filter f xs) \<le> length xs"
  by (induction xs) (auto simp: List.map_filter_simps split: option.splits)

subsection \<open>Date synthesis\<close>



text \<open>
  Two headings outside ASCII: a no-break space between day and month, and digits and
  letters that only Unicode matching accepts (Arabic-Indic digits, a long s).
\<close>

lemma date_synthesis_beyond_ascii:
  "process_article 2025
      \<lparr>h2_texts = [u ''Free LEGO 5'' @ [0xA0] @ u ''December 2026''], h3_texts = [],
       a_hrefs = []\<rparr> =
     Some (candidate (u ''Free LEGO 5'' @ [0xA0] @ u ''December 2026'') (u ''UK'')
             (u ''2026-December-5'') (u ''2026-December-5'') (u ''LEGO Store'') []) \<and>
   process_article 2025
      \<lparr>h2_texts = [u ''Free LEGO '' @ [0x663] @ u '' Augu'' @ [0x17F] @ u ''t''],
       h3_texts = [], a_hrefs = []\<rparr> =
     Some (candidate (u ''Free LEGO '' @ [0x663] @ u '' Augu'' @ [0x17F] @ u ''t'') (u ''UK'')
             (u ''2025-Augu'' @ [0x17F] @ u ''t-'' @ [0x663])
             (u ''2025-Augu'' @ [0x17F] @ u ''t-'' @ [0x663]) (u ''LEGO Store'') [])"
  by (simp add: py_eval digit_zeros_def)

subsection \<open>Classification\<close>

text \<open>
  C7. For a heading that produced a candidate: the store is Smyths Toys when the lowered
  heading contains \<open>smyths\<close>, else John Lewis when it contains \<open>john lewis\<close>, else
  LEGO Store; the location is the first city of the list (London, Manchester, Birmingham,
  Liverpool, Glasgow, Leeds, Edinburgh) whose lowered name the lowered heading contains,
  whichever store was chosen, and without such a city the Smyths label for a Smyths heading
  and \<open>UK\<close> otherwise.
\<close>

theorem classification:
  assumes "process_article year art = Some e" and "title_elem art = Some title"
  shows "map_of e ''store'' =
           Some (if py_in (u ''smyths'') (lower title) then u ''Smyths Toys''
                 else if py_in (u ''john lewis'') (lower title) then u ''John Lewis''
                 else u ''LEGO Store'') \<and>
         map_of e ''location'' =
           Some (case find (\<lambda>city. py_in (lower city) (lower title)) cities of
                   Some city \<Rightarrow> city
                 | None \<Rightarrow> if py_in (u ''smyths'') (lower title) then u ''UK Smyths Stores''
                           else u ''UK'')"
proof -
  from process_article_SomeD [OF assms(1)] assms(2)
  have "py_in (u ''free'') (lower title)" "py_in (u ''lego'') (lower title)" by auto
  from process_article_relevant [OF assms(2) this, of year] assms(1)
  show ?thesis by (auto simp: city_loop_find split: list.splits option.splits)
qed

theorem classification_witness:
  "process_article 2025
      \<lparr>h2_texts = [], h3_texts = [u ''Free LEGO at Smyths Glasgow''], a_hrefs = []\<rparr> =
     Some (candidate (u ''Free LEGO at Smyths Glasgow'') (u ''Glasgow'') (u ''TBA'')
             pending_label (u ''Smyths Toys'') []) \<and>
   title_elem \<lparr>h2_texts = [], h3_texts = [u ''Free LEGO at Smyths Glasgow''], a_hrefs = []\<rparr> =
     Some (u ''Free LEGO at Smyths Glasgow'') \<and>
   map_of (candidate (u ''Free LEGO at Smyths Glasgow'') (u ''Glasgow'') (u ''TBA'')
             pending_label (u ''Smyths Toys'') []) ''store'' = Some (u ''Smyths Toys'') \<and>
   map_of (candidate (u ''Free LEGO at Smyths Glasgow'') (u ''Glasgow'') (u ''TBA'')
             pending_label (u ''Smyths Toys'') []) ''location'' = Some (u ''Glasgow'')"
proof -
  let ?t = "u ''Free LEGO at Smyths Glasgow''"
  let ?art = "\<lparr>h2_texts = [], h3_texts = [?t], a_hrefs = []\<rparr>"
  have p: "process_article 2025 ?art =
     Some (candidate ?t (u ''Glasgow'') (u ''TBA'') pending_label (u ''Smyths Toys'') [])"
    by (simp add: py_eval)
  have t: "title_elem ?art = Some ?t" by (simp add: title_elem_def)
  have v1: "(if py_in (u ''smyths'') (lower ?t) then u ''Smyths Toys''
             else if py_in (u ''john lewis'') (lower ?t) then u ''John Lewis''
             else u ''LEGO Store'') = u ''Smyths Toys''"
    by (simp add: py_eval)
  have v2: "(case find (\<lambda>city. py_in (lower city) (lower ?t)) cities of
               Some city \<Rightarrow> city
             | None \<Rightarrow> if py_in (u ''smyths'') (lower ?t) then u ''UK Smyths Stores''
                       else u ''UK'') = u ''Glasgow''"
    by (simp add: py_eval)
  note c = classification [OF p t, unfolded v1 v2]
  show ?thesis by (intro conjI p t c [THEN conjunct1] c [THEN conjunct2])
qed

subsection \<open>Five blocks, filtered\<close>

text \<open>
  C8. On a response of status 200 the result is the list of the candidates that the first
  five article blocks produce, in block order, so it has at most five events and later
  blocks play no part. A block produces a candidate only if one of its level-2 or level-3
  headings contains, lowered, both \<open>free\<close> and \<open>lego\<close>, and that heading is the
  candidate's title; a block without a heading, or whose heading fails the filter, produces
  none, and the blocks after it are still read.
\<close>

theorem first_five_blocks_filtered:
  "scrape_lego_news year (Some r) =
     (if status r = 200 then List.map_filter (process_article year) (take 5 (articles r)) else []) \<and>
   length (scrape_lego_news year (Some r)) \<le> 5 \<and>
   (\<forall>e. process_article year art = Some e \<longrightarrow>
      (\<exists>title. title \<in> set (h2_texts art) \<union> set (h3_texts art) \<and>
         py_in (u ''free'') (lower title) \<and> py_in (u ''lego'') (lower title) \<and>
         map_of e ''title'' = Some title)) \<and>
   (title_elem art = None \<or>
    (\<exists>title. title_elem art = Some title \<and>
       \<not> (py_in (u ''free'') (lower title) \<and> py_in (u ''lego'') (lower title))) \<longrightarrow>
      process_article year art = None)"
proof -
  have a: "scrape_lego_news year (Some r) =
     (if status r = 200 then List.map_filter (process_article year) (take 5 (articles r)) else [])"
    by (simp add: scrape_lego_news_def articles_loop_map_filter)
  have "length (List.map_filter (process_article year) (take 5 (articles r))) \<le>
      length (take 5 (articles r))"
    by (rule length_map_filter_le)
  with a have b: "length (scrape_lego_news year (Some r)) \<le> 5" by simp
  have c: "\<exists>title. title \<in> set (h2_texts art) \<union> set (h3_texts art) \<and>
         py_in (u ''free'') (lower title) \<and> py_in (u ''lego'') (lower title) \<and>
         map_of e ''title'' = Some title" if p: "process_article year art = Some e" for e
  proof -
    from process_article_SomeD [OF p] obtain title where t: "title_elem art = Some title"
      and f: "py_in (u ''free'') (lower title)" and l: "py_in (u ''lego'') (lower title)"
      by blast
    from process_article_relevant [OF t f l, of year] p have "map_of e ''title'' = Some title"
      by (auto split: list.splits option.splits)
    with title_elem_heading [OF t] f l show ?thesis by blast
  qed
  have d: "process_article year art = None"
    if "title_elem art = None \<or> (\<exists>title. title_elem art = Some title \<and>
       \<not> (py_in (u ''free'') (lower title) \<and> py_in (u ''lego'') (lower title)))"
    using that by (auto simp: process_article_def)
  from a b c d show ?thesis by blast
qed

theorem first_five_blocks_filtered_witness:
  "status sample_page = 200 \<and>
   scrape_lego_news 2025 (Some sample_page) =
     List.map_filter (process_article 2025) (take 5 (articles sample_page)) \<and>
   scrape_lego_news 2025 (Some sample_page) =
     [candidate (u ''Free LEGO set at selected stores'') (u ''UK'') (u ''TBA'') pending_label
        (u ''LEGO Store'') (u ''/a''),
      candidate (u ''Free LEGO at John Lewis 12 may 2026'') (u ''UK'') (u ''2026-may-12'')
        (u ''2026-may-12'') (u ''John Lewis'') []] \<and>
   length (scrape_lego_news 2025 (Some sample_page)) \<le> 5 \<and>
   (\<exists>title. title \<in> set [u ''Free LEGO set at selected stores''] \<union> set [] \<and>
      py_in (u ''free'') (lower title) \<and> py_in (u ''lego'') (lower title) \<and>
      map_of (candidate (u ''Free LEGO set at selected stores'') (u ''UK'') (u ''TBA'')
                pending_label (u ''LEGO Store'') (u ''/a'')) ''title'' = Some title) \<and>
   process_article 2025 \<lparr>h2_texts = [], h3_texts = [], a_hrefs = [Some (u ''/c'')]\<rparr> = None"
proof -
  let ?a1 = "\<lparr>h2_texts = [u ''Free LEGO set at selected stores''], h3_texts = [],
        a_hrefs = [Some (u ''/a'')]\<rparr>"
  let ?e1 = "candidate (u ''Free LEGO set at selected stores'') (u ''UK'') (u ''TBA'')
        pending_label (u ''LEGO Store'') (u ''/a'')"
  let ?a3 = "\<lparr>h2_texts = [], h3_texts = [], a_hrefs = [Some (u ''/c'')]\<rparr>"
  have st: "status sample_page = 200" by (simp add: sample_page_def)
  have res: "scrape_lego_news 2025 (Some sample_page) =
     [?e1,
      candidate (u ''Free LEGO at John Lewis 12 may 2026'') (u ''UK'') (u ''2026-may-12'')
        (u ''2026-may-12'') (u ''John Lewis'') []]"
    by (simp add: py_eval)
  have p1: "process_article 2025 ?a1 = Some ?e1" by (simp add: py_eval)
  have t3: "title_elem ?a3 = None" by (simp add: title_elem_def)
  note th1 = first_five_blocks_filtered [of 2025 sample_page ?a1]
  note th3 = first_five_blocks_filtered [of 2025 sample_page ?a3]
  have a: "scrape_lego_news 2025 (Some sample_page) =
     List.map_filter (process_article 2025) (take 5 (articles sample_page))"
    using th1 [THEN conjunct1] st by simp
  have c: "\<exists>title. title \<in> set [u ''Free LEGO set at selected stores''] \<union> set [] \<and>
      py_in (u ''free'') (lower title) \<and> py_in (u ''lego'') (lower title) \<and>
      map_of ?e1 ''title'' = Some title"
    using th1 [THEN conjunct2, THEN conjunct2, THEN conjunct1, THEN spec, THEN mp, OF p1]
    by simp
  have d: "process_article 2025 ?a3 = None"
    using th3 [THEN conjunct2, THEN conjunct2, THEN conjunct2] t3 by simp
  show ?thesis
    by (intro conjI st a res th1 [THEN conjunct2, THEN conjunct1] c d)
qed

subsection \<open>The link\<close>

text \<open>
  C9 as stated: every block that passes the filter produces a candidate, whose url is the
  target of the block's first link element, or empty when the block has none. It fails for
  a block whose first link element has no \<open>href\<close>: the lookup raises, the exception is
  caught at line 138, and the block is skipped although it passed the filter.
\<close>

theorem link_without_target_skips_block:
  "title_elem \<lparr>h2_texts = [u ''Free LEGO set''], h3_texts = [], a_hrefs = [None]\<rparr> =
     Some (u ''Free LEGO set'') \<and>
   py_in (u ''free'') (lower (u ''Free LEGO set'')) \<and>
   py_in (u ''lego'') (lower (u ''Free LEGO set'')) \<and>
   process_article 2025 \<lparr>h2_texts = [u ''Free LEGO set''], h3_texts = [], a_hrefs = [None]\<rparr> =
     None"
  by (simp add: py_eval)

text \<open>
  C9, amended. For a block that passes the filter: without a link element the candidate is
  produced with the empty url; when the first link element has a target the candidate is
  produced with that target as url; when the first link element has no target the block is
  skipped.
\<close>

theorem url_is_first_link_target:
  assumes "title_elem art = Some title" "py_in (u ''free'') (lower title)"
    "py_in (u ''lego'') (lower title)"
  shows "(a_hrefs art = [] \<longrightarrow>
            (\<exists>e. process_article year art = Some e \<and> map_of e ''url'' = Some [])) \<and>
         (\<forall>href rest. a_hrefs art = Some href # rest \<longrightarrow>
            (\<exists>e. process_article year art = Some e \<and> map_of e ''url'' = Some href)) \<and>
         (\<forall>rest. a_hrefs art = None # rest \<longrightarrow> process_article year art = None)"
  using process_article_relevant [OF assms, of year] by auto

theorem url_is_first_link_target_witness:
  "title_elem \<lparr>h2_texts = [u ''Free LEGO set''], h3_texts = [],
       a_hrefs = [Some (u ''https://example.org/a''), None]\<rparr> = Some (u ''Free LEGO set'') \<and>
   py_in (u ''free'') (lower (u ''Free LEGO set'')) \<and>
   py_in (u ''lego'') (lower (u ''Free LEGO set'')) \<and>
   (\<exists>e. process_article 2025 \<lparr>h2_texts = [u ''Free LEGO set''], h3_texts = [],
       a_hrefs = [Some (u ''https://example.org/a''), None]\<rparr> = Some e \<and>
        map_of e ''url'' = Some (u ''https://example.org/a'')) \<and>
   title_elem \<lparr>h2_texts = [u ''Free LEGO set''], h3_texts = [], a_hrefs = []\<rparr> =
     Some (u ''Free LEGO set'') \<and>
   (\<exists>e. process_article 2025 \<lparr>h2_texts = [u ''Free LEGO set''], h3_texts = [],
       a_hrefs = []\<rparr> = Some e \<and> map_of e ''url'' = Some [])"
proof -
  let ?t = "u ''Free LEGO set''"
  let ?a1 = "\<lparr>h2_texts = [?t], h3_texts = [],
      a_hrefs = [Some (u ''https://example.org/a''), None]\<rparr>"
  let ?a2 = "\<lparr>h2_texts = [?t], h3_texts = [], a_hrefs = []\<rparr>"
  have t1: "title_elem ?a1 = Some ?t" and t2: "title_elem ?a2 = Some ?t"
    by (simp_all add: title_elem_def)
  have f: "py_in (u ''free'') (lower ?t)" and l: "py_in (u ''lego'') (lower ?t)"
    by (simp_all add: py_eval)
  have h: "a_hrefs ?a1 = Some (u ''https://example.org/a'') # [None]" and n: "a_hrefs ?a2 = []"
    by simp_all
  note th1 = url_is_first_link_target [OF t1 f l, of 2025]
  note th2 = url_is_first_link_target [OF t2 f l, of 2025]
  note c1 = th1 [THEN conjunct2, THEN conjunct1, THEN spec, THEN spec, THEN mp, OF h]
  note c2 = th2 [THEN conjunct1, THEN mp, OF n]
  show ?thesis by (intro conjI t1 f l c1 t2 c2)
qed

section \<open>Properties of the calendar encoder\<close>

subsection \<open>The single export\<close>

text \<open>
  Line 58 always raises, inside the \<open>try\<close> block, so the block never completes: whatever
  the date, \<open>create_ics_file\<close> returns \<open>None\<close> (or raises KeyError before the block).
\<close>

lemma single_date_block_raises: "single_date_block lib event ical_event = None"
  by (simp add: single_date_block_def add_without_value_def split: option.splits)

lemma create_ics_file_result:
  "create_ics_file lib event =
     (if map_of event ''title'' = None \<or> map_of event ''store'' = None \<or>
         map_of event ''location'' = None
      then Inl KeyError else Inr None)"
  by (auto simp: create_ics_file_def Let_def single_date_block_raises split: option.splits)

lemma create_ics_file_never_document: "create_ics_file lib event \<noteq> Inr (Some doc)"
  by (simp add: create_ics_file_result)

text \<open>
  C4. The claim says an event whose date parses gets a document with one component and one
  alarm. For an event with the ISO date \<open>2025-12-05\<close>, which parses, localises and has
  an end two hours later, \<open>create_ics_file\<close> returns \<open>None\<close>.
\<close>

theorem single_export_fails_on_iso_date:
  "fromisoformat sample_lib (u ''2025-12-05'') = Some (63900489600, None) \<and>
   localize sample_lib (63900489600, None) = Some (63900489600, Some (u ''Europe/London'')) \<and>
   plus_hours sample_lib (63900489600, Some (u ''Europe/London'')) 2 =
     Some (63900496800, Some (u ''Europe/London'')) \<and>
   create_ics_file sample_lib (sample_event (u ''2025-12-05'')) = Inr None"
  by (simp add: sample_lib_def sample_event_def create_ics_file_result)

subsection \<open>The batch export\<close>

lemma export_loop_eq:
  "export_loop lib events (cal, count) =
     (Component (comp_name cal) (props cal)
        (subcomponents cal @ List.map_filter (batch_survivor lib) events),
      count + length (List.map_filter (batch_survivor lib) events))"
proof (induction events arbitrary: cal count)
  case Nil
  show ?case by (simp add: List.map_filter_simps)
next
  case (Cons x events)
  obtain event_id event where x: "x = (event_id, event)" by (cases x)
  show ?case unfolding x
    by (simp add: Cons.IH List.map_filter_simps batch_survivor_def add_component_def
        split: option.splits)
qed

lemma export_all_events_eq:
  "export_all_events lib events =
     (case List.map_filter (batch_survivor lib) events of
        [] \<Rightarrow> if events = [] then NoEvents else NoValidDates
      | c # cs \<Rightarrow>
          Exported (Component ''VCALENDAR''
                      [(''prodid'', Text (u ''-//LEGO Events UK//EN'')),
                       (''version'', Text (u ''2.0''))]
                      (c # cs))
                   (length (c # cs)))"
  by (simp add: export_all_events_def export_loop_eq add_def Calendar_def
      List.map_filter_simps split: list.splits)

lemma batch_component_SomeD:
  assumes "batch_component lib event_id event = Some c"
  shows "\<exists>title store location d naive start dtend.
           map_of event ''title'' = Some title \<and> map_of event ''store'' = Some store \<and>
           map_of event ''location'' = Some location \<and> map_of event ''date'' = Some d \<and>
           fromisoformat lib d = Some naive \<and> localize lib naive = Some start \<and>
           plus_hours lib start 2 = Some dtend \<and>
           c = Component ''VEVENT''
                 [(''summary'', Text title),
                  (''description'',
                     Text (get event ''description'' [] @ [0x0A] @ store_label @ store)),
                  (''location'', Text location),
                  (''dtstart'', DateTime start),
                  (''dtend'', DateTime dtend),
                  (''uid'', Text (event_id @ u ''@legoeventsuk''))]
                 []"
  using assms
  by (auto simp: batch_component_def add_def ICalEvent_def split: option.splits)

lemma batch_component_SomeI:
  assumes "map_of event ''title'' = Some title" "map_of event ''store'' = Some store"
    "map_of event ''location'' = Some location" "map_of event ''date'' = Some d"
    "fromisoformat lib d = Some naive" "localize lib naive = Some start"
    "plus_hours lib start 2 = Some dtend"
  shows "batch_component lib event_id event =
           Some (Component ''VEVENT''
                 [(''summary'', Text title),
                  (''description'',
                     Text (get event ''description'' [] @ [0x0A] @ store_label @ store)),
                  (''location'', Text location),
                  (''dtstart'', DateTime start),
                  (''dtend'', DateTime dtend),
                  (''uid'', Text (event_id @ u ''@legoeventsuk''))]
                 [])"
  using assms by (simp add: batch_component_def add_def ICalEvent_def)

lemma single_dated_SomeI:
  assumes "map_of event ''date'' = Some d"
    "fromisoformat lib d = Some naive" "localize lib naive = Some start"
    "plus_hours lib start 2 = Some dtend"
  shows "single_dated lib event (single_head event title store location) =
           Some (Component ''VEVENT''
                 [(''summary'', Text title),
                  (''description'',
                     Text (get event ''description'' [] @ [0x0A, 0x0A] @ store_label @ store)),
                  (''location'', Text location),
                  (''dtstart'', DateTime start),
                  (''dtend'', DateTime dtend)]
                 [])"
  using assms by (simp add: single_dated_def single_head_def add_def ICalEvent_def)

text \<open>
  C5 as stated: every event whose date is not \<open>TBA\<close> and parses survives the batch export,
  with the fields of the single export. It fails for an event whose ISO date carries a
  time zone: the date parses, localising it raises, line 307 catches the exception, and
  the event is dropped; the catalog that holds only this event gets the reply that no event
  has a valid date. It fails for the fields too: for an event that does survive, the batch
  export joins description and store label with one line break where \<open>create_ics_file\<close>
  puts two, and makes the uid of the catalog key where \<open>create_ics_file\<close> takes the event's
  \<open>id\<close> field.
\<close>

theorem batch_drops_zoned_date_and_differs_in_fields:
  "map_of (sample_event (u ''2025-12-05T10:00:00+00:00'')) ''date'' =
     Some (u ''2025-12-05T10:00:00+00:00'') \<and>
   u ''2025-12-05T10:00:00+00:00'' \<noteq> u ''TBA'' \<and>
   fromisoformat sample_lib (u ''2025-12-05T10:00:00+00:00'') =
     Some (63900525600, Some (u ''UTC'')) \<and>
   export_all_events sample_lib
     [(u ''auto_1'', sample_event (u ''2025-12-05T10:00:00+00:00''))] = NoValidDates \<and>
   export_all_events sample_lib [(u ''manual_2'', sample_event (u ''2025-12-05''))] =
     Exported (Component ''VCALENDAR''
                 [(''prodid'', Text (u ''-//LEGO Events UK//EN'')),
                  (''version'', Text (u ''2.0''))]
                 [Component ''VEVENT''
                    [(''summary'', Text (u ''Free LEGO set'')),
                     (''description'',
                        Text (u ''Details'' @ [0x0A] @ store_label @ u ''LEGO Store'')),
                     (''location'', Text (u ''London'')),
                     (''dtstart'', DateTime (63900489600, Some (u ''Europe/London''))),
                     (''dtend'', DateTime (63900496800, Some (u ''Europe/London''))),
                     (''uid'', Text (u ''manual_2@legoeventsuk''))]
                    []])
              1 \<and>
   single_dated sample_lib (sample_event (u ''2025-12-05''))
       (single_head (sample_event (u ''2025-12-05'')) (u ''Free LEGO set'') (u ''LEGO Store'')
          (u ''London'')) =
     Some (Component ''VEVENT''
             [(''summary'', Text (u ''Free LEGO set'')),
              (''description'',
                 Text (u ''Details'' @ [0x0A, 0x0A] @ store_label @ u ''LEGO Store'')),
              (''location'', Text (u ''London'')),
              (''dtstart'', DateTime (63900489600, Some (u ''Europe/London''))),
              (''dtend'', DateTime (63900496800, Some (u ''Europe/London'')))]
             []) \<and>
   single_uid (sample_event (u ''2025-12-05'')) = u ''auto_1@legoeventsuk''"
  by (simp add: py_eval)

text \<open>
  C5, amended. The batch export yields the calendar with the product identifier, the
  version and, in catalog order, one component for each entry that survives; it reports a
  failure exactly when no entry survives. An entry survives exactly when it has a title, a
  store, a location and a date other than \<open>TBA\<close> that parses, can be localised and has an
  end two hours later; nothing is reported for an entry that does not survive. The
  component of a surviving entry has no sub-component, so no alarm. Its summary, location,
  start (the parsed date localised) and end (start plus two hours) are those that
  \<open>create_ics_file\<close> gives its component in lines 43 to 55; its description joins the
  event's description and the store label with one line break where \<open>create_ics_file\<close>
  puts two; its uid is the catalog key and \<open>@legoeventsuk\<close>, which is the uid of
  \<open>create_ics_file\<close> when the event's \<open>id\<close> field is its catalog key.
\<close>

theorem batch_export_filters:
  "export_all_events lib events =
     (case List.map_filter (batch_survivor lib) events of
        [] \<Rightarrow> if events = [] then NoEvents else NoValidDates
      | c # cs \<Rightarrow>
          Exported (Component ''VCALENDAR''
                      [(''prodid'', Text (u ''-//LEGO Events UK//EN'')),
                       (''version'', Text (u ''2.0''))]
                      (c # cs))
                   (length (c # cs))) \<and>
   ((batch_survivor lib (event_id, event) \<noteq> None) =
      (\<exists>title store location d naive start dtend.
         map_of event ''title'' = Some title \<and> map_of event ''store'' = Some store \<and>
         map_of event ''location'' = Some location \<and> map_of event ''date'' = Some d \<and>
         d \<noteq> u ''TBA'' \<and>
         fromisoformat lib d = Some naive \<and> localize lib naive = Some start \<and>
         plus_hours lib start 2 = Some dtend)) \<and>
   (\<forall>c. batch_survivor lib (event_id, event) = Some c \<longrightarrow>
      (\<exists>title store location d naive start dtend.
         map_of event ''title'' = Some title \<and> map_of event ''store'' = Some store \<and>
         map_of event ''location'' = Some location \<and> map_of event ''date'' = Some d \<and>
         d \<noteq> u ''TBA'' \<and>
         fromisoformat lib d = Some naive \<and> localize lib naive = Some start \<and>
         plus_hours lib start 2 = Some dtend \<and>
         single_dated lib event (single_head event title store location) =
           Some (Component ''VEVENT''
                   [(''summary'', Text title),
                    (''description'',
                       Text (get event ''description'' [] @ [0x0A, 0x0A] @ store_label @ store)),
                    (''location'', Text location),
                    (''dtstart'', DateTime start),
                    (''dtend'', DateTime dtend)]
                   []) \<and>
         c = Component ''VEVENT''
               [(''summary'', Text title),
                (''description'',
                   Text (get event ''description'' [] @ [0x0A] @ store_label @ store)),
                (''location'', Text location),
                (''dtstart'', DateTime start),
                (''dtend'', DateTime dtend),
                (''uid'', Text (event_id @ u ''@legoeventsuk''))]
               [])) \<and>
   (map_of event ''id'' = Some event_id \<longrightarrow>
      single_uid event = event_id @ u ''@legoeventsuk'')"
proof -
  have b1: "\<exists>title store location d naive start dtend.
         map_of event ''title'' = Some title \<and> map_of event ''store'' = Some store \<and>
         map_of event ''location'' = Some location \<and> map_of event ''date'' = Some d \<and>
         d \<noteq> u ''TBA'' \<and>
         fromisoformat lib d = Some naive \<and> localize lib naive = Some start \<and>
         plus_hours lib start 2 = Some dtend \<and>
         single_dated lib event (single_head event title store location) =
           Some (Component ''VEVENT''
                   [(''summary'', Text title),
                    (''description'',
                       Text (get event ''description'' [] @ [0x0A, 0x0A] @ store_label @ store)),
                    (''location'', Text location),
                    (''dtstart'', DateTime start),
                    (''dtend'', DateTime dtend)]
                   []) \<and>
         c = Component ''VEVENT''
               [(''summary'', Text title),
                (''description'',
                   Text (get event ''description'' [] @ [0x0A] @ store_label @ store)),
                (''location'', Text location),
                (''dtstart'', DateTime start),
                (''dtend'', DateTime dtend),
                (''uid'', Text (event_id @ u ''@legoeventsuk''))]
               []"
    if s: "batch_survivor lib (event_id, event) = Some c" for c
  proof -
    from s have nt: "map_of event ''date'' \<noteq> Some (u ''TBA'')"
      and bc: "batch_component lib event_id event = Some c"
      by (auto simp: batch_survivor_def split: if_splits)
    from batch_component_SomeD [OF bc] obtain title store location d naive start dtend where
      f: "map_of event ''title'' = Some title" "map_of event ''store'' = Some store"
        "map_of event ''location'' = Some location" "map_of event ''date'' = Some d"
        "fromisoformat lib d = Some naive" "localize lib naive = Some start"
        "plus_hours lib start 2 = Some dtend"
      and c: "c = Component ''VEVENT''
               [(''summary'', Text title),
                (''description'',
                   Text (get event ''description'' [] @ [0x0A] @ store_label @ store)),
                (''location'', Text location),
                (''dtstart'', DateTime start),
                (''dtend'', DateTime dtend),
                (''uid'', Text (event_id @ u ''@legoeventsuk''))]
               []"
      by blast
    from nt f(4) have "d \<noteq> u ''TBA''" by simp
    with f c single_dated_SomeI [OF f(4-7), of title store location] show ?thesis by blast
  qed
  have b2: "batch_survivor lib (event_id, event) \<noteq> None"
    if "\<exists>title store location d naive start dtend.
         map_of event ''title'' = Some title \<and> map_of event ''store'' = Some store \<and>
         map_of event ''location'' = Some location \<and> map_of event ''date'' = Some d \<and>
         d \<noteq> u ''TBA'' \<and>
         fromisoformat lib d = Some naive \<and> localize lib naive = Some start \<and>
         plus_hours lib start 2 = Some dtend"
  proof -
    from that obtain title store location d naive start dtend where
      f: "map_of event ''title'' = Some title" "map_of event ''store'' = Some store"
        "map_of event ''location'' = Some location" "map_of event ''date'' = Some d"
        "fromisoformat lib d = Some naive" "localize lib naive = Some start"
        "plus_hours lib start 2 = Some dtend" and nt: "d \<noteq> u ''TBA''"
      by blast
    from batch_component_SomeI [OF f, of event_id] f(4) nt show ?thesis
      by (simp add: batch_survivor_def)
  qed
  have b: "(batch_survivor lib (event_id, event) \<noteq> None) =
      (\<exists>title store location d naive start dtend.
         map_of event ''title'' = Some title \<and> map_of event ''store'' = Some store \<and>
         map_of event ''location'' = Some location \<and> map_of event ''date'' = Some d \<and>
         d \<noteq> u ''TBA'' \<and>
         fromisoformat lib d = Some naive \<and> localize lib naive = Some start \<and>
         plus_hours lib start 2 = Some dtend)"
  proof
    assume "batch_survivor lib (event_id, event) \<noteq> None"
    then obtain c where "batch_survivor lib (event_id, event) = Some c" by blast
    from b1 [OF this] show "\<exists>title store location d naive start dtend.
         map_of event ''title'' = Some title \<and> map_of event ''store'' = Some store \<and>
         map_of event ''location'' = Some location \<and> map_of event ''date'' = Some d \<and>
         d \<noteq> u ''TBA'' \<and>
         fromisoformat lib d = Some naive \<and> localize lib naive = Some start \<and>
         plus_hours lib start 2 = Some dtend"
      by blast
  next
    assume "\<exists>title store location d naive start dtend.
         map_of event ''title'' = Some title \<and> map_of event ''store'' = Some store \<and>
         map_of event ''location'' = Some location \<and> map_of event ''date'' = Some d \<and>
         d \<noteq> u ''TBA'' \<and>
         fromisoformat lib d = Some naive \<and> localize lib naive = Some start \<and>
         plus_hours lib start 2 = Some dtend"
    from b2 [OF this] show "batch_survivor lib (event_id, event) \<noteq> None" .
  qed
  have d: "map_of event ''id'' = Some event_id \<longrightarrow>
      single_uid event = event_id @ u ''@legoeventsuk''"
    by (simp add: single_uid_def get_def)
  show ?thesis
    by (intro conjI allI impI export_all_events_eq b b1 d [THEN mp]) assumption+
qed

theorem batch_export_filters_witness:
  "export_all_events sample_lib
      [(u ''auto_1'', sample_event (u ''2025-12-05'')),
       (u ''auto_2'', sample_event (u ''TBA'')),
       (u ''auto_3'', sample_event (u ''2025-12-05T10:00:00+00:00'')),
       (u ''auto_4'', sample_event (u ''2025-December-5''))] =
     Exported (Component ''VCALENDAR''
                 [(''prodid'', Text (u ''-//LEGO Events UK//EN'')),
                  (''version'', Text (u ''2.0''))]
                 [Component ''VEVENT''
                    [(''summary'', Text (u ''Free LEGO set'')),
                     (''description'',
                        Text (u ''Details'' @ [0x0A] @ store_label @ u ''LEGO Store'')),
                     (''location'', Text (u ''London'')),
                     (''dtstart'', DateTime (63900489600, Some (u ''Europe/London''))),
                     (''dtend'', DateTime (63900496800, Some (u ''Europe/London''))),
                     (''uid'', Text (u ''auto_1@legoeventsuk''))]
                    []])
              1 \<and>
   batch_survivor sample_lib (u ''auto_1'', sample_event (u ''2025-12-05'')) =
     Some (Component ''VEVENT''
             [(''summary'', Text (u ''Free LEGO set'')),
              (''description'',
                 Text (u ''Details'' @ [0x0A] @ store_label @ u ''LEGO Store'')),
              (''location'', Text (u ''London'')),
              (''dtstart'', DateTime (63900489600, Some (u ''Europe/London''))),
              (''dtend'', DateTime (63900496800, Some (u ''Europe/London''))),
              (''uid'', Text (u ''auto_1@legoeventsuk''))]
             []) \<and>
   (\<exists>title store location d naive start dtend.
      map_of (sample_event (u ''2025-12-05'')) ''title'' = Some title \<and>
      map_of (sample_event (u ''2025-12-05'')) ''store'' = Some store \<and>
      map_of (sample_event (u ''2025-12-05'')) ''location'' = Some location \<and>
      map_of (sample_event (u ''2025-12-05'')) ''date'' = Some d \<and>
      d \<noteq> u ''TBA'' \<and>
      fromisoformat sample_lib d = Some naive \<and> localize sample_lib naive = Some start \<and>
      plus_hours sample_lib start 2 = Some dtend \<and>
      single_dated sample_lib (sample_event (u ''2025-12-05''))
          (single_head (sample_event (u ''2025-12-05'')) title store location) =
        Some (Component ''VEVENT''
                [(''summary'', Text title),
                 (''description'',
                    Text (get (sample_event (u ''2025-12-05'')) ''description'' [] @ [0x0A, 0x0A]
                          @ store_label @ store)),
                 (''location'', Text location),
                 (''dtstart'', DateTime start),
                 (''dtend'', DateTime dtend)]
                []) \<and>
      Component ''VEVENT''
             [(''summary'', Text (u ''Free LEGO set'')),
              (''description'',
                 Text (u ''Details'' @ [0x0A] @ store_label @ u ''LEGO Store'')),
              (''location'', Text (u ''London'')),
              (''dtstart'', DateTime (63900489600, Some (u ''Europe/London''))),
              (''dtend'', DateTime (63900496800, Some (u ''Europe/London''))),
              (''uid'', Text (u ''auto_1@legoeventsuk''))]
             [] =
        Component ''VEVENT''
            [(''summary'', Text title),
             (''description'',
                Text (get (sample_event (u ''2025-12-05'')) ''description'' [] @ [0x0A]
                      @ store_label @ store)),
             (''location'', Text location),
             (''dtstart'', DateTime start),
             (''dtend'', DateTime dtend),
             (''uid'', Text (u ''auto_1'' @ u ''@legoeventsuk''))]
            []) \<and>
   map_of (sample_event (u ''2025-12-05'')) ''id'' = Some (u ''auto_1'') \<and>
   single_uid (sample_event (u ''2025-12-05'')) = u ''auto_1'' @ u ''@legoeventsuk'' \<and>
   batch_survivor sample_lib (u ''auto_2'', sample_event (u ''TBA'')) = None \<and>
   batch_survivor sample_lib (u ''auto_3'', sample_event (u ''2025-12-05T10:00:00+00:00'')) =
     None \<and>
   batch_survivor sample_lib (u ''auto_4'', sample_event (u ''2025-December-5'')) = None"
proof -
  let ?evs = "[(u ''auto_1'', sample_event (u ''2025-12-05'')),
       (u ''auto_2'', sample_event (u ''TBA'')),
       (u ''auto_3'', sample_event (u ''2025-12-05T10:00:00+00:00'')),
       (u ''auto_4'', sample_event (u ''2025-December-5''))]"
  let ?c = "Component ''VEVENT''
             [(''summary'', Text (u ''Free LEGO set'')),
              (''description'',
                 Text (u ''Details'' @ [0x0A] @ store_label @ u ''LEGO Store'')),
              (''location'', Text (u ''London'')),
              (''dtstart'', DateTime (63900489600, Some (u ''Europe/London''))),
              (''dtend'', DateTime (63900496800, Some (u ''Europe/London''))),
              (''uid'', Text (u ''auto_1@legoeventsuk''))]
             []"
  have s1: "batch_survivor sample_lib (u ''auto_1'', sample_event (u ''2025-12-05'')) = Some ?c"
    by (simp add: py_eval)
  have s2: "batch_survivor sample_lib (u ''auto_2'', sample_event (u ''TBA'')) = None"
    by (simp add: py_eval)
  have s3: "batch_survivor sample_lib
      (u ''auto_3'', sample_event (u ''2025-12-05T10:00:00+00:00'')) = None"
    by (simp add: py_eval)
  have s4: "batch_survivor sample_lib (u ''auto_4'', sample_event (u ''2025-December-5'')) = None"
    by (simp add: py_eval)
  have mf: "List.map_filter (batch_survivor sample_lib) ?evs = [?c]"
    by (simp only: List.map_filter_simps s1 s2 s3 s4 option.case)
  have i: "map_of (sample_event (u ''2025-12-05'')) ''id'' = Some (u ''auto_1'')"
    by (simp add: py_eval)
  note th = batch_export_filters [of sample_lib ?evs "u ''auto_1''"
      "sample_event (u ''2025-12-05'')"]
  have a: "export_all_events sample_lib ?evs =
     Exported (Component ''VCALENDAR''
                 [(''prodid'', Text (u ''-//LEGO Events UK//EN'')),
                  (''version'', Text (u ''2.0''))]
                 [?c])
              1"
    using th [THEN conjunct1] by (simp only: mf list.case list.size) simp
  note c = th [THEN conjunct2, THEN conjunct2, THEN conjunct1, THEN spec, THEN mp, OF s1]
  note d = th [THEN conjunct2, THEN conjunct2, THEN conjunct2, THEN mp, OF i]
  show ?thesis by (intro conjI a s1 c i d s2 s3 s4)
qed

end
